theory Spec2Isabelle
  imports Main "HOL-Library.AList" "HOL-Library.Char_ord" "HOL-Library.List_Lexorder"
    "HOL-Library.Multiset"
begin

section \<open>Python strings\<close>

text \<open>
  A Python \<open>str\<close> is modelled as a \<open>string\<close>, one \<open>char\<close> per code point; the
  model covers text whose code points lie in U+0000..U+00FF (the hybrid sign U+00D7 is
  the only non-ASCII character the sources name). Within that range the definitions
  below are what \<open>str.isspace\<close>, \<open>str.lower\<close>, \<open>str.strip\<close>, \<open>str.split\<close> and
  \<open>str.join\<close> compute.
\<close>

definition py_isspace :: "char \<Rightarrow> bool" where
  "py_isspace c \<longleftrightarrow>
     c \<in> {CHR 0x09, CHR 0x0A, CHR 0x0B, CHR 0x0C, CHR 0x0D, CHR 0x1C, CHR 0x1D, CHR 0x1E,
          CHR 0x1F, CHR 0x20, CHR 0x85, CHR 0xA0}"

definition py_lower_char :: "char \<Rightarrow> char" where
  "py_lower_char c =
     (let n = (of_char c :: nat)
      in if (65 \<le> n \<and> n \<le> 90) \<or> (192 \<le> n \<and> n \<le> 222 \<and> n \<noteq> 215)
         then char_of (n + 32) else c)"

definition py_lower :: "string \<Rightarrow> string" where
  "py_lower s = map py_lower_char s"

definition py_strip :: "string \<Rightarrow> string" where
  "py_strip s = rev (dropWhile py_isspace (rev (dropWhile py_isspace s)))"

text \<open>\<open>s.split()\<close>: the maximal runs of non-whitespace characters, in order.\<close>

fun py_split_aux :: "string \<Rightarrow> string \<Rightarrow> string list" where
  "py_split_aux cur [] = (if cur = [] then [] else [cur])"
| "py_split_aux cur (c # cs) =
     (if py_isspace c then (if cur = [] then py_split_aux [] cs else cur # py_split_aux [] cs)
      else py_split_aux (cur @ [c]) cs)"

definition py_split :: "string \<Rightarrow> string list" where
  "py_split s = py_split_aux [] s"

text \<open>\<open>s.split(sep)\<close> for a one-character separator: empty pieces are kept.\<close>

fun py_split_on_aux :: "char \<Rightarrow> string \<Rightarrow> string \<Rightarrow> string list" where
  "py_split_on_aux sep cur [] = [cur]"
| "py_split_on_aux sep cur (c # cs) =
     (if c = sep then cur # py_split_on_aux sep [] cs else py_split_on_aux sep (cur @ [c]) cs)"

definition py_split_on :: "char \<Rightarrow> string \<Rightarrow> string list" where
  "py_split_on sep s = py_split_on_aux sep [] s"

fun py_join :: "string \<Rightarrow> string list \<Rightarrow> string" where
  "py_join sep [] = []"
| "py_join sep [w] = w"
| "py_join sep (w # v # ws) = w @ sep @ py_join sep (v # ws)"

definition startswith :: "string \<Rightarrow> string \<Rightarrow> bool" where
  "startswith s p \<longleftrightarrow> take (length p) s = p"

text \<open>The truth value of an optional string: \<open>None\<close> and \<open>''\<close> are false.\<close>

definition truthy :: "string option \<Rightarrow> bool" where
  "truthy a = (case a of None \<Rightarrow> False | Some s \<Rightarrow> s \<noteq> [])"

section \<open>Regular expressions with Python's backtracking order\<close>

text \<open>
  The patterns of name\_parser.py use character classes, literals, sequence, alternation,
  \<open>?\<close>, greedy \<open>*\<close> and \<open>+\<close> and the lazy \<open>*?\<close>. \<open>matches r s\<close> lists, in the order in
  which the backtracking matcher of \<open>re\<close> tries them, the texts that remain after each way
  of matching \<open>r\<close> at the start of \<open>s\<close>; the match \<open>re\<close> reports is the first one. A
  repetition only iterates after consuming a character; no repeated sub-pattern of this
  file matches the empty string.
\<close>

datatype regex =
    Eps
  | Cls "char \<Rightarrow> bool"
  | Seq regex regex
  | Alt regex regex
  | Opt regex
  | Star regex
  | Lazy regex

fun matches :: "regex \<Rightarrow> string \<Rightarrow> string list" where
  "matches Eps s = [s]"
| "matches (Cls p) s = (case s of [] \<Rightarrow> [] | c # cs \<Rightarrow> if p c then [cs] else [])"
| "matches (Seq a b) s = concat (map (matches b) (matches a s))"
| "matches (Alt a b) s = matches a s @ matches b s"
| "matches (Opt a) s = matches a s @ [s]"
| "matches (Star a) s =
     concat (map (\<lambda>t. if length t < length s then matches (Star a) t else []) (matches a s)) @ [s]"
| "matches (Lazy a) s =
     s # concat (map (\<lambda>t. if length t < length s then matches (Lazy a) t else []) (matches a s))"

definition Plus :: "regex \<Rightarrow> regex" where
  "Plus r = Seq r (Star r)"

text \<open>A literal, as written and under \<open>re.IGNORECASE\<close>.\<close>

definition lit :: "string \<Rightarrow> regex" where
  "lit w = foldr (\<lambda>c r. Seq (Cls (\<lambda>d. d = c)) r) w Eps"

definition lit_i :: "string \<Rightarrow> regex" where
  "lit_i w = foldr (\<lambda>c r. Seq (Cls (\<lambda>d. py_lower_char d = py_lower_char c)) r) w Eps"

definition ws :: regex where
  "ws = Cls py_isspace"

definition non :: "char \<Rightarrow> regex" where
  "non c = Cls (\<lambda>d. d \<noteq> c)"

text \<open>
  A pattern is the list of its segments, cut at the parentheses of its capture groups.
  \<open>match_segs\<close> lists the ways of matching the segments one after the other, each with the
  text every segment matched and the text that remains.
\<close>

type_synonym pattern = "regex list"

fun match_segs :: "pattern \<Rightarrow> string \<Rightarrow> (string list \<times> string) list" where
  "match_segs [] s = [([], s)]"
| "match_segs (r # rs) s =
     concat (map (\<lambda>t. map (\<lambda>(gs, u). (take (length s - length t) s # gs, u)) (match_segs rs t))
                 (matches r s))"

text \<open>\<open>pattern.match(s)\<close>: the first match at the start of \<open>s\<close>.\<close>

definition re_match :: "pattern \<Rightarrow> string \<Rightarrow> (string list \<times> string) option" where
  "re_match p s = (case match_segs p s of [] \<Rightarrow> None | m # _ \<Rightarrow> Some m)"

text \<open>\<open>re.search\<close>: the leftmost match, as (text before, segments, text after).\<close>

fun re_search :: "pattern \<Rightarrow> string \<Rightarrow> (string \<times> string list \<times> string) option" where
  "re_search p [] = (case re_match p [] of None \<Rightarrow> None | Some (gs, t) \<Rightarrow> Some ([], gs, t))"
| "re_search p (c # cs) =
     (case re_match p (c # cs) of
        Some (gs, t) \<Rightarrow> Some ([], gs, t)
      | None \<Rightarrow> (case re_search p cs of None \<Rightarrow> None | Some (b, gs, t) \<Rightarrow> Some (c # b, gs, t)))"

text \<open>
  \<open>re.finditer\<close>: the successive non-overlapping matches, left to right. After a match
  the scan goes on where the match ended.
\<close>

function re_finditer :: "pattern \<Rightarrow> string \<Rightarrow> string list list" where
  "re_finditer p [] = (case re_match p [] of None \<Rightarrow> [] | Some (gs, t) \<Rightarrow> [gs])"
| "re_finditer p (c # cs) =
     (case re_match p (c # cs) of
        None \<Rightarrow> re_finditer p cs
      | Some (gs, t) \<Rightarrow>
          gs # (if length t < length (c # cs) then re_finditer p t else re_finditer p cs))"
  by pat_completeness auto
termination
  by (relation "measure (\<lambda>(p, s). length s)") auto

text \<open>\<open>re.sub(pattern, '', s)\<close>: every match is deleted, the text between is kept.\<close>

function re_sub_empty :: "pattern \<Rightarrow> string \<Rightarrow> string" where
  "re_sub_empty p [] = []"
| "re_sub_empty p (c # cs) =
     (case re_match p (c # cs) of
        None \<Rightarrow> c # re_sub_empty p cs
      | Some (gs, t) \<Rightarrow>
          (if length t < length (c # cs) then re_sub_empty p t else c # re_sub_empty p cs))"
  by pat_completeness auto
termination
  by (relation "measure (\<lambda>(p, s). length s)") auto

text \<open>\<open>re.split(pattern, s, maxsplit=1)\<close> for a pattern without capture groups.\<close>

definition re_split1 :: "pattern \<Rightarrow> string \<Rightarrow> string list" where
  "re_split1 p s = (case re_search p s of None \<Rightarrow> [s] | Some (b, gs, t) \<Rightarrow> [b, t])"

text \<open>
  \<open>re.sub('^...', '', s)\<close> for a pattern that starts with \<open>^\<close>: without
  \<open>re.MULTILINE\<close> the pattern can only match at the start of the text.
\<close>

definition re_sub_empty_bol :: "pattern \<Rightarrow> string \<Rightarrow> string" where
  "re_sub_empty_bol p s = (case re_match p s of None \<Rightarrow> s | Some (gs, t) \<Rightarrow> t)"

definition cat :: "regex list \<Rightarrow> regex" where
  "cat rs = foldr Seq rs Eps"

section \<open>The inconsistency reporter (utils.py)\<close>

text \<open>
  \<open>log_inconsistency(message)\<close> appends one line to the note file. A note is recorded
  by its message template and the values that fill it; the reporter is the list of notes
  written so far, and a function that can reach the reporter takes the list and returns
  it.
\<close>

datatype log_note =
    Multiple_links "string set" string
  | No_species_name string
  | Species_mismatch string string
  | Hybrid_mismatch string string
  | Synonym_target_mismatch string string "string option"
  | Other_link_not_found string string

type_synonym reporter = "log_note list"

definition log_inconsistency :: "log_note \<Rightarrow> reporter \<Rightarrow> reporter" where
  "log_inconsistency message lg = lg @ [message]"

section \<open>Chain resolution (parser.py, resolve\_synonym)\<close>

datatype py_error = KeyError | RecursionError

text \<open>
  \<^verbatim>\<open>
  def resolve_synonym(name, synonym_map, visited=None):
      if visited is None:
          visited = set()
      if name in visited:
          return name
      if name not in synonym_map:
          return name
      visited.add(name)
      return resolve_synonym(synonym_map[name], synonym_map, visited)
  \<close>
  The dictionary of parser.py maps a synonym to one accepted name; it is an association
  list read with \<open>map_of\<close>. The subscript \<open>synonym_map[name]\<close> raises \<open>KeyError\<close> on a
  missing key, which is a branch of the model. The function body never calls
  \<open>log_inconsistency\<close>, so the reporter is handed back as it came.

  The function calls itself once for every name it walks, and nothing in the sources
  raises the interpreter's recursion limit (1000 frames unless changed). The first
  argument of the model is the number of frames the interpreter still has for the walk:
  every call takes one, and a call with none left raises \<open>RecursionError\<close>.
\<close>

fun resolve_synonym ::
  "nat \<Rightarrow> string \<Rightarrow> (string \<times> string) list \<Rightarrow> string set \<Rightarrow> reporter
     \<Rightarrow> (py_error + string) \<times> reporter"
where
  "resolve_synonym 0 name synonym_map visited lg = (Inl RecursionError, lg)"
| "resolve_synonym (Suc frames) name synonym_map visited lg =
     (if name \<in> visited then (Inr name, lg)
      else if name \<notin> fst ` set synonym_map then (Inr name, lg)
      else (case map_of synonym_map name of
              None \<Rightarrow> (Inl KeyError, lg)
            | Some nxt \<Rightarrow> resolve_synonym frames nxt synonym_map (insert name visited) lg))"

text \<open>
  A walk of the dictionary: every name of the list but the last is a key, and its value is
  the next name of the list.
\<close>

fun is_walk :: "(string \<times> string) list \<Rightarrow> string list \<Rightarrow> bool" where
  "is_walk synonym_map [] = True"
| "is_walk synonym_map [x] = True"
| "is_walk synonym_map (x # y # rest) =
     (map_of synonym_map x = Some y \<and> is_walk synonym_map (y # rest))"



section \<open>Line parsing (name\_parser.py)\<close>

datatype entry_type =
  ACCEPTED_SPECIES | ACCEPTED_HYBRID | SYNONYM_EQUALS | SYNONYM_SEE | OTHER_LINK

record synonym =
  s_name :: "string option"
  s_author :: "string option"

record entry =
  entry_type :: entry_type
  species_name :: string
  e_author :: "string option"
  e_url :: string
  e_is_hybrid :: bool
  e_synonyms :: "synonym list"
  raw_line :: string

definition dq :: char where
  "dq = CHR 0x22"

definition times_sign :: char where
  "times_sign = CHR 0xD7"

text \<open>\<^verbatim>\<open><a\s+href="(quercus_[^"]+\.htm)"[^>]*>(.*?)</a>\<close>, \<open>re.IGNORECASE\<close>\<close>

definition link_pattern :: pattern where
  "link_pattern =
     [cat [lit_i ''<a'', Plus ws, lit_i ''href='', lit_i [dq]],
      cat [lit_i ''quercus_'', Plus (non dq), lit_i ''.htm''],
      cat [lit_i [dq], Star (non CHR ''>''), lit_i ''>''],
      Lazy (non CHR 0x0A),
      lit_i ''</a>'']"

text \<open>\<^verbatim>\<open><[^>]+>\<close>\<close>

definition tag :: regex where
  "tag = cat [lit ''<'', Plus (non CHR ''>''), lit ''>'']"

text \<open>\<^verbatim>\<open>quercus_([^.]+)\.htm\<close>, \<open>re.IGNORECASE\<close>\<close>

definition species_pattern :: pattern where
  "species_pattern = [lit_i ''quercus_'', Plus (non CHR ''.''), lit_i ''.htm'']"

text \<open>\<^verbatim>\<open>\(x\)|\<times>|x\.\<close>, \<open>re.IGNORECASE\<close>\<close>

definition hybrid_pattern :: pattern where
  "hybrid_pattern = [Alt (lit_i ''(x)'') (Alt (lit_i [times_sign]) (lit_i ''x.''))]"

text \<open>\<^verbatim>\<open>:\s*see:?\s+\<close>, \<open>re.IGNORECASE\<close>\<close>

definition see_pattern :: pattern where
  "see_pattern = [cat [lit_i '':'', Star ws, lit_i ''see'', Opt (lit_i '':''), Plus ws]]"

text \<open>\<^verbatim>\<open>\s*=\s+\<close>\<close>

definition equals_pattern :: pattern where
  "equals_pattern = [cat [Star ws, lit ''='', Plus ws]]"

text \<open>\<^verbatim>\<open>^\s*(?:<[^>]+>)*\s*<a\s+href="quercus_\<close>, \<open>re.IGNORECASE\<close>, used with \<open>re.match\<close>\<close>

definition starts_with_link_pattern :: pattern where
  "starts_with_link_pattern =
     [cat [Star ws, Star tag, Star ws, lit_i ''<a'', Plus ws, lit_i ''href='', lit_i [dq],
           lit_i ''quercus_'']]"

text \<open>\<^verbatim>\<open>^[\<times>x]\s*\<close>, \<open>re.IGNORECASE\<close>; the \<open>^\<close> is in \<open>re_sub_empty_bol\<close>\<close>

definition leading_x_pattern :: pattern where
  "leading_x_pattern =
     [cat [Cls (\<lambda>d. py_lower_char d = times_sign \<or> py_lower_char d = CHR ''x''), Star ws]]"

text \<open>\<^verbatim>\<open>\(x\)|x\.\<close>, \<open>re.IGNORECASE\<close>\<close>

definition marker_pattern :: pattern where
  "marker_pattern = [Alt (lit_i ''(x)'') (lit_i ''x.'')]"

text \<open>
  \<open>html.unescape\<close> and \<open>urllib.parse.urljoin\<close> are library functions; the functions
  that call them take them as the parameters \<open>unescape\<close> and \<open>urljoin\<close>.
\<close>

definition strip_html_tags :: "(string \<Rightarrow> string) \<Rightarrow> string \<Rightarrow> string" where
  "strip_html_tags unescape text = unescape (py_strip (re_sub_empty [tag] text))"

definition extract_links_from_line :: "(string \<Rightarrow> string) \<Rightarrow> string \<Rightarrow> (string \<times> string) list" where
  "extract_links_from_line unescape line =
     map (\<lambda>gs. (gs ! 1, unescape (py_strip (re_sub_empty [tag] (gs ! 3)))))
         (re_finditer link_pattern line)"

definition extract_species_from_url :: "string \<Rightarrow> string option" where
  "extract_species_from_url u =
     (case re_search species_pattern u of None \<Rightarrow> None | Some (b, gs, t) \<Rightarrow> Some (gs ! 1))"

definition is_hybrid :: "string \<Rightarrow> bool" where
  "is_hybrid text \<longleftrightarrow> re_search hybrid_pattern text \<noteq> None"

text \<open>
  Three idioms every entry parser repeats:
  \<^verbatim>\<open>words[0].strip() if words else None\<close>,
  \<^verbatim>\<open>' '.join(words[1:]).strip() if len(words) > 1 else None\<close> and
  \<^verbatim>\<open>if author and not author.strip(): author = None\<close>.
\<close>

definition first_word :: "string list \<Rightarrow> string option" where
  "first_word words = (case words of [] \<Rightarrow> None | w # _ \<Rightarrow> Some (py_strip w))"

definition rest_joined :: "string list \<Rightarrow> string option" where
  "rest_joined words =
     (if length words > 1 then Some (py_strip (py_join '' '' (drop 1 words))) else None)"

definition none_if_blank :: "string option \<Rightarrow> string option" where
  "none_if_blank a = (if truthy a \<and> \<not> truthy (map_option py_strip a) then None else a)"

definition parse_accepted_species ::
  "string \<Rightarrow> string \<Rightarrow> string \<Rightarrow> string \<Rightarrow> reporter \<Rightarrow> entry option \<times> reporter"
where
  "parse_accepted_species visible_text u species_from_url raw lg =
     (let words = py_split visible_text in
      case words of
        [] \<Rightarrow> (None, lg)
      | w # _ \<Rightarrow>
          let species_from_text = py_strip w;
              author = none_if_blank (rest_joined words);
              lg1 = (if py_lower species_from_text \<noteq> py_lower species_from_url
                     then log_inconsistency (Species_mismatch species_from_text species_from_url) lg
                     else lg)
          in (Some \<lparr>entry_type = ACCEPTED_SPECIES, species_name = species_from_url,
                    e_author = author, e_url = u, e_is_hybrid = False, e_synonyms = [],
                    raw_line = raw\<rparr>, lg1))"

definition parse_accepted_hybrid ::
  "string \<Rightarrow> string \<Rightarrow> string \<Rightarrow> string \<Rightarrow> reporter \<Rightarrow> entry option \<times> reporter"
where
  "parse_accepted_hybrid visible_text u species_from_url raw lg =
     (let words =
            (if startswith visible_text [times_sign] \<or> startswith (py_lower visible_text) ''x ''
             then py_split (py_strip (re_sub_empty_bol leading_x_pattern visible_text))
             else py_split (py_strip (re_sub_empty marker_pattern visible_text)));
          species_from_text = first_word words;
          author0 = rest_joined words;
          author = (if truthy author0 \<and> \<not> truthy (map_option py_strip author0) then None
                    else if truthy author0 then map_option py_strip author0
                    else author0);
          lg1 = (case species_from_text of
                   None \<Rightarrow> lg
                 | Some t \<Rightarrow>
                     if t \<noteq> [] \<and> py_lower t \<noteq> py_lower species_from_url
                     then log_inconsistency (Hybrid_mismatch t species_from_url) lg
                     else lg)
      in (Some \<lparr>entry_type = ACCEPTED_HYBRID, species_name = species_from_url,
                e_author = author, e_url = u, e_is_hybrid = True, e_synonyms = [],
                raw_line = raw\<rparr>, lg1))"

text \<open>
  Lines 219 to 237 of name\_parser.py: the accepted-name text and the author words of the
  right-hand side of an equals line.
\<close>

definition accepted_name_and_author_words :: "string list \<Rightarrow> string option \<times> string list" where
  "accepted_name_and_author_words accepted_words =
     (if accepted_words \<noteq> [] \<and> py_lower (py_strip (hd accepted_words)) = ''x''
         \<and> length accepted_words > 1
      then (Some (py_strip (accepted_words ! 1)), drop 2 accepted_words)
      else if accepted_words \<noteq> []
      then (Some (py_strip (hd accepted_words)), drop 1 accepted_words)
      else (None, []))"

definition parse_synonym_equals ::
  "string \<Rightarrow> string \<Rightarrow> string \<Rightarrow> string \<Rightarrow> reporter \<Rightarrow> entry option \<times> reporter"
where
  "parse_synonym_equals visible_text u species_from_url raw lg =
     (case re_split1 equals_pattern visible_text of
        [p0, p1] \<Rightarrow>
          let synonym_part = py_strip p0;
              accepted_part = py_strip p1;
              synonym_words = py_split synonym_part;
              synonym_name = first_word synonym_words;
              synonym_author = none_if_blank (rest_joined synonym_words);
              accepted_words = py_split accepted_part;
              (accepted_name_text, author_words) = accepted_name_and_author_words accepted_words;
              accepted_author =
                none_if_blank (if author_words \<noteq> []
                               then Some (py_strip (py_join '' '' author_words)) else None);
              lg1 = (case accepted_name_text of
                       None \<Rightarrow> lg
                     | Some t \<Rightarrow>
                         if t \<noteq> [] \<and> py_lower t \<noteq> py_lower species_from_url
                         then log_inconsistency
                                (Synonym_target_mismatch t species_from_url (Some raw)) lg
                         else lg);
              hybrid = is_hybrid accepted_part
          in (Some \<lparr>entry_type = SYNONYM_EQUALS, species_name = species_from_url,
                    e_author = accepted_author, e_url = u, e_is_hybrid = hybrid,
                    e_synonyms = [\<lparr>s_name = synonym_name, s_author = synonym_author\<rparr>],
                    raw_line = raw\<rparr>, lg1)
      | _ \<Rightarrow> (None, lg))"

text \<open>The body of the loop over \<open>synonyms_part.split(',')\<close>.\<close>

definition see_synonym :: "string \<Rightarrow> synonym list" where
  "see_synonym syn0 =
     (let syn = py_strip syn0 in
      if syn \<noteq> [] then
        (let syn_words = py_split syn;
             syn_name = first_word syn_words;
             syn_author = none_if_blank (rest_joined syn_words)
         in if truthy syn_name then [\<lparr>s_name = syn_name, s_author = syn_author\<rparr>] else [])
      else [])"

definition parse_synonym_see ::
  "string \<Rightarrow> string \<Rightarrow> string \<Rightarrow> string \<Rightarrow> reporter \<Rightarrow> entry option \<times> reporter"
where
  "parse_synonym_see visible_text u species_from_url raw lg =
     (case re_split1 see_pattern visible_text of
        [p0, p1] \<Rightarrow>
          let synonyms_part = py_strip p0;
              accepted_part = py_strip p1;
              synonym_entries = concat (map see_synonym (py_split_on CHR '','' synonyms_part));
              accepted_words = py_split accepted_part;
              accepted_name_text = first_word accepted_words;
              accepted_author = none_if_blank (rest_joined accepted_words);
              lg1 = (case accepted_name_text of
                       None \<Rightarrow> lg
                     | Some t \<Rightarrow>
                         if t \<noteq> [] \<and> py_lower t \<noteq> py_lower species_from_url
                         then log_inconsistency
                                (Synonym_target_mismatch t species_from_url None) lg
                         else lg);
              hybrid = is_hybrid accepted_part
          in (Some \<lparr>entry_type = SYNONYM_SEE, species_name = species_from_url,
                    e_author = accepted_author, e_url = u, e_is_hybrid = hybrid,
                    e_synonyms = synonym_entries, raw_line = raw\<rparr>, lg1)
      | _ \<Rightarrow> (None, lg))"

text \<open>
  The loop of parse\_other\_link: the first word equal to the link-derived name without
  regard to case, with the words after it.
\<close>

fun find_species_word :: "string \<Rightarrow> string list \<Rightarrow> (string \<times> string list) option" where
  "find_species_word species_from_url [] = None"
| "find_species_word species_from_url (word # rest) =
     (if py_lower word = py_lower species_from_url then Some (word, rest)
      else find_species_word species_from_url rest)"

definition parse_other_link ::
  "string \<Rightarrow> string \<Rightarrow> string \<Rightarrow> string \<Rightarrow> reporter \<Rightarrow> entry option \<times> reporter"
where
  "parse_other_link visible_text u species_from_url raw lg =
     (let words = py_split visible_text;
          (species_from_text, author0) =
            (case find_species_word species_from_url words of
               None \<Rightarrow> (None, None)
             | Some (word, rest) \<Rightarrow>
                 (Some word,
                  if rest \<noteq> [] then Some (py_strip (py_join '' '' rest)) else None));
          author = none_if_blank author0;
          lg1 = (if \<not> truthy species_from_text
                 then log_inconsistency (Other_link_not_found species_from_url visible_text) lg
                 else lg);
          hybrid = is_hybrid visible_text
      in (Some \<lparr>entry_type = OTHER_LINK, species_name = species_from_url,
                e_author = author, e_url = u, e_is_hybrid = hybrid, e_synonyms = [],
                raw_line = raw\<rparr>, lg1))"

definition parse_line ::
  "(string \<Rightarrow> string) \<Rightarrow> (string \<Rightarrow> string \<Rightarrow> string) \<Rightarrow> string \<Rightarrow> string \<Rightarrow> reporter
     \<Rightarrow> entry option \<times> reporter"
where
  "parse_line unescape urljoin line0 base_url lg =
     (let line = py_strip line0;
          links = extract_links_from_line unescape line
      in case links of
           [] \<Rightarrow> (None, lg)
         | (main_href, _) # _ \<Rightarrow>
             let unique_hrefs = set (map fst links);
                 lg1 = (if card unique_hrefs > 1
                        then log_inconsistency
                               (Multiple_links unique_hrefs (strip_html_tags unescape line)) lg
                        else lg);
                 main_url = urljoin base_url main_href;
                 species = extract_species_from_url main_href
             in if \<not> truthy species
                then (None, log_inconsistency (No_species_name (strip_html_tags unescape line)) lg1)
                else
                  (case species of
                     None \<Rightarrow> (None, lg1)
                   | Some species_from_url \<Rightarrow>
                       let visible_text = strip_html_tags unescape line
                       in if re_search see_pattern visible_text \<noteq> None
                          then parse_synonym_see visible_text main_url species_from_url line lg1
                          else if re_search equals_pattern visible_text \<noteq> None
                          then parse_synonym_equals visible_text main_url species_from_url line lg1
                          else if re_match starts_with_link_pattern line \<noteq> None
                          then (if is_hybrid visible_text
                                then parse_accepted_hybrid visible_text main_url species_from_url
                                       line lg1
                                else parse_accepted_species visible_text main_url species_from_url
                                       line lg1)
                          else parse_other_link visible_text main_url species_from_url line lg1))"

section \<open>Aggregation (name\_parser.py, parse\_species\_list\_html)\<close>

text \<open>
  The two dictionaries keep their keys in insertion order, and \<open>list(d.values())\<close> and
  \<open>d.items()\<close> read them in that order; each is an association list with distinct keys.
  \<open>AList.update k v\<close> is \<open>d[k] = v\<close>: it replaces the value of a present key where it
  stands and appends a new key at the end.
\<close>

record accepted_record =
  r_name :: string
  r_author :: "string option"
  r_url :: string
  r_is_hybrid :: bool
  r_synonyms :: "synonym list"

record syn_mapping =
  m_accepted_name :: string
  m_synonym_author :: "string option"

record aggregate =
  accepted_species :: "(string \<times> accepted_record) list"
  synonym_map :: "(string \<times> syn_mapping list) list"

definition empty_aggregate :: aggregate where
  "empty_aggregate = \<lparr>accepted_species = [], synonym_map = []\<rparr>"

definition new_record :: "entry \<Rightarrow> accepted_record" where
  "new_record parsed =
     \<lparr>r_name = species_name parsed, r_author = e_author parsed, r_url = e_url parsed,
      r_is_hybrid = e_is_hybrid parsed, r_synonyms = []\<rparr>"

text \<open>The body of the loop over \<open>parsed['synonyms']\<close> (lines 415 to 424).\<close>

definition add_synonym_mapping ::
  "string \<Rightarrow> (string \<times> syn_mapping list) list \<Rightarrow> synonym \<Rightarrow> (string \<times> syn_mapping list) list"
where
  "add_synonym_mapping species sm syn =
     (if truthy (s_name syn) then
        (case s_name syn of
           None \<Rightarrow> sm
         | Some syn_name \<Rightarrow>
             let sm1 = (if syn_name \<notin> fst ` set sm then AList.update syn_name [] sm else sm);
                 old = (case map_of sm1 syn_name of None \<Rightarrow> [] | Some ms \<Rightarrow> ms)
             in AList.update syn_name
                  (old @ [\<lparr>m_accepted_name = species, m_synonym_author = s_author syn\<rparr>]) sm1)
      else sm)"

text \<open>The body of the loop over the parsed lines (lines 391 to 434).\<close>

definition aggregate_entry :: "aggregate \<Rightarrow> entry \<Rightarrow> aggregate" where
  "aggregate_entry st parsed =
     (let species = species_name parsed in
      if entry_type parsed \<in> {ACCEPTED_SPECIES, ACCEPTED_HYBRID} then
        (case map_of (accepted_species st) species of
           None \<Rightarrow>
             st\<lparr>accepted_species := AList.update species (new_record parsed) (accepted_species st)\<rparr>
         | Some r \<Rightarrow>
             let r1 = (if truthy (e_author parsed) \<and> \<not> truthy (r_author r)
                       then r\<lparr>r_author := e_author parsed\<rparr> else r);
                 r2 = (if e_is_hybrid parsed then r1\<lparr>r_is_hybrid := True\<rparr> else r1)
             in st\<lparr>accepted_species := AList.update species r2 (accepted_species st)\<rparr>)
      else if entry_type parsed \<in> {SYNONYM_EQUALS, SYNONYM_SEE, OTHER_LINK} then
        (let sm = foldl (add_synonym_mapping species) (synonym_map st) (e_synonyms parsed);
             acc = (case map_of (accepted_species st) species of
                      None \<Rightarrow> AList.update species (new_record parsed) (accepted_species st)
                    | Some r \<Rightarrow> accepted_species st)
         in \<lparr>accepted_species = acc, synonym_map = sm\<rparr>)
      else st)"

definition aggregate_entries :: "aggregate \<Rightarrow> entry list \<Rightarrow> aggregate" where
  "aggregate_entries st entries = foldl aggregate_entry st entries"

text \<open>The final loops (lines 436 to 445): one sub-entry per mapping of every synonym.\<close>

definition attach_synonym ::
  "string \<Rightarrow> (string \<times> accepted_record) list \<Rightarrow> syn_mapping \<Rightarrow> (string \<times> accepted_record) list"
where
  "attach_synonym syn_name acc syn_info =
     (case map_of acc (m_accepted_name syn_info) of
        None \<Rightarrow> acc
      | Some r \<Rightarrow>
          AList.update (m_accepted_name syn_info)
            (r\<lparr>r_synonyms := r_synonyms r
                   @ [\<lparr>s_name = Some syn_name, s_author = m_synonym_author syn_info\<rparr>]\<rparr>) acc)"

definition build_synonym_lists ::
  "(string \<times> accepted_record) list \<Rightarrow> (string \<times> syn_mapping list) list
     \<Rightarrow> (string \<times> accepted_record) list"
where
  "build_synonym_lists acc sm =
     foldl (\<lambda>a (syn_name, syn_mappings). foldl (attach_synonym syn_name) a syn_mappings) acc sm"

text \<open>What the function returns for an aggregate: the records in key order and the map.\<close>

definition finish :: "aggregate \<Rightarrow> accepted_record list \<times> (string \<times> syn_mapping list) list" where
  "finish st =
     (map snd (build_synonym_lists (accepted_species st) (synonym_map st)), synonym_map st)"

definition parse_species_list_html ::
  "(string \<Rightarrow> string) \<Rightarrow> (string \<Rightarrow> string \<Rightarrow> string) \<Rightarrow> string \<Rightarrow> string \<Rightarrow> reporter
     \<Rightarrow> (accepted_record list \<times> (string \<times> syn_mapping list) list) \<times> reporter"
where
  "parse_species_list_html unescape urljoin html base_url lg =
     (let lines = py_split_on CHR 0x0A html;
          (st, lg1) =
            foldl (\<lambda>(st, lg) line.
                     case parse_line unescape urljoin line base_url lg of
                       (None, lg') \<Rightarrow> (st, lg')
                     | (Some parsed, lg') \<Rightarrow> (aggregate_entry st parsed, lg'))
                  (empty_aggregate, lg) lines
      in (finish st, lg1))"

text \<open>
  An entry is settled in a dictionary of records when aggregating it once more cannot
  change the dictionary: its record exists and, for an accepted entry, already has an
  author if the entry has one and already has the hybrid flag if the entry has it.
\<close>

definition settled :: "(string \<times> accepted_record) list \<Rightarrow> entry \<Rightarrow> bool" where
  "settled acc e \<longleftrightarrow>
     (case map_of acc (species_name e) of
        None \<Rightarrow> False
      | Some r \<Rightarrow>
          entry_type e \<in> {ACCEPTED_SPECIES, ACCEPTED_HYBRID} \<longrightarrow>
            (truthy (e_author e) \<longrightarrow> truthy (r_author r)) \<and> (e_is_hybrid e \<longrightarrow> r_is_hybrid r))"

text \<open>\<open>synonym_map.get(k, [])\<close>: the mappings recorded for a synonym name.\<close>

definition syn_lookup :: "(string \<times> syn_mapping list) list \<Rightarrow> string \<Rightarrow> syn_mapping list" where
  "syn_lookup sm k = (case map_of sm k of None \<Rightarrow> [] | Some ms \<Rightarrow> ms)"

text \<open>The mappings one entry contributes for the synonym name \<open>k\<close>, in order.\<close>

definition entry_mappings :: "entry \<Rightarrow> string \<Rightarrow> syn_mapping list" where
  "entry_mappings e k =
     (if entry_type e \<in> {SYNONYM_EQUALS, SYNONYM_SEE, OTHER_LINK}
      then concat (map (\<lambda>syn. if truthy (s_name syn) \<and> s_name syn = Some k
                               then [\<lparr>m_accepted_name = species_name e,
                                      m_synonym_author = s_author syn\<rparr>]
                               else []) (e_synonyms e))
      else [])"

text \<open>One synonym sub-entry for every mapping of the map that names the record \<open>n\<close>.\<close>

definition attached :: "string \<Rightarrow> (string \<times> syn_mapping list) list \<Rightarrow> synonym list" where
  "attached n sm =
     concat (map (\<lambda>(k, ms).
                    concat (map (\<lambda>m. if m_accepted_name m = n
                                      then [\<lparr>s_name = Some k, s_author = m_synonym_author m\<rparr>]
                                      else []) ms)) sm)"

section \<open>The hand-off to the writer (scraper.py, main)\<close>

text \<open>
  \<^verbatim>\<open>
  all_species.sort(key=lambda x: x['name'])
  save_final_output(all_species)
  \<close>
  The dictionaries of \<open>all_species\<close> carry the fields of an accepted record and those
  the species pages add; \<open>list.sort\<close> is a stable sort, and \<open>str\<close> is ordered
  lexicographically by code point. \<open>final_output\<close> is the list \<open>save_final_output\<close>
  receives.
\<close>

definition final_output :: "'a accepted_record_scheme list \<Rightarrow> 'a accepted_record_scheme list" where
  "final_output all_species = sort_key r_name all_species"

section \<open>Inputs of the worked examples\<close>

text \<open>Example 3 of the specification: the visible text of a hybrid line.\<close>

definition example3_text :: string where
  "example3_text = times_sign # '' subfalcata (x) Author Name''"

text \<open>
  The library parameters at the examples: \<open>html.unescape\<close> returns a text without
  \<open>&\<close> as it is, and \<open>urljoin\<close> of a base that ends in \<open>/\<close> with a plain relative file
  name appends the name.
\<close>

definition example_unescape :: "string \<Rightarrow> string" where
  "example_unescape s = s"

definition example_urljoin :: "string \<Rightarrow> string \<Rightarrow> string" where
  "example_urljoin base href = base @ href"

definition example_base :: string where
  "example_base = ''https://oaksoftheworld.fr/''"

definition anchor :: "string \<Rightarrow> string \<Rightarrow> string" where
  "anchor href label = ''<a href='' @ [dq] @ href @ [dq] @ ''>'' @ label @ ''</a>''"


definition example_species_line :: string where
  "example_species_line = anchor ''quercus_robur.htm'' ''robur'' @ '' L.''"

text \<open>A line that is one link with no visible text.\<close>

definition example_empty_anchor_line :: string where
  "example_empty_anchor_line = anchor ''quercus_alba.htm'' []"

text \<open>An equals line with nothing left of the sign.\<close>

definition example_nameless_equals_line :: string where
  "example_nameless_equals_line = ''= '' @ anchor ''quercus_alba.htm'' ''alba''"

definition example_equals_x_text :: string where
  "example_equals_x_text = ''aaata = x alba L. f.''"

text \<open>The same name and author with the embedded marker only.\<close>

definition example3_embedded_text :: string where
  "example3_embedded_text = ''subfalcata (x) Author Name''"

text \<open>Example 3 as a whole line: the link holds the hybrid sign and the name.\<close>

definition example3_line :: string where
  "example3_line =
     anchor ''quercus_subfalcata.htm'' (times_sign # '' subfalcata'') @ '' (x) Author Name''"

text \<open>Entries for the aggregation examples.\<close>

definition example_alba_entry :: entry where
  "example_alba_entry =
     \<lparr>entry_type = ACCEPTED_SPECIES, species_name = ''alba'', e_author = Some ''L.'',
      e_url = ''https://oaksoftheworld.fr/quercus_alba.htm'', e_is_hybrid = False,
      e_synonyms = [], raw_line = []\<rparr>"

definition example_alba_hybrid_entry :: entry where
  "example_alba_hybrid_entry =
     \<lparr>entry_type = ACCEPTED_HYBRID, species_name = ''alba'', e_author = Some ''Michx.'',
      e_url = ''https://oaksoftheworld.fr/quercus_alba.htm'', e_is_hybrid = True,
      e_synonyms = [], raw_line = []\<rparr>"

definition example_alba_bare_entry :: entry where
  "example_alba_bare_entry =
     \<lparr>entry_type = ACCEPTED_SPECIES, species_name = ''alba'', e_author = None,
      e_url = ''https://oaksoftheworld.fr/quercus_alba.htm'', e_is_hybrid = False,
      e_synonyms = [], raw_line = []\<rparr>"

definition example_corrugata_entry :: entry where
  "example_corrugata_entry =
     \<lparr>entry_type = SYNONYM_EQUALS, species_name = ''corrugata'', e_author = None,
      e_url = ''https://oaksoftheworld.fr/quercus_corrugata.htm'', e_is_hybrid = False,
      e_synonyms = [\<lparr>s_name = Some ''aaata'', s_author = None\<rparr>], raw_line = []\<rparr>"

section \<open>Properties of line parsing\<close>

lemma parse_accepted_species_fields:
  "parse_accepted_species v u sp raw lg = (Some e, lg') \<Longrightarrow>
     entry_type e = ACCEPTED_SPECIES \<and> species_name e = sp \<and> e_synonyms e = [] \<and> py_split v \<noteq> []"
  by (auto simp: parse_accepted_species_def Let_def split: list.splits)

lemma parse_accepted_species_None:
  "fst (parse_accepted_species v u sp raw lg) = None \<longleftrightarrow> py_split v = []"
  by (auto simp: parse_accepted_species_def Let_def split: list.splits)

lemma parse_accepted_hybrid_fields:
  "parse_accepted_hybrid v u sp raw lg = (Some e, lg') \<Longrightarrow>
     entry_type e = ACCEPTED_HYBRID \<and> species_name e = sp \<and> e_synonyms e = []"
  by (auto simp: parse_accepted_hybrid_def Let_def)

lemma parse_accepted_hybrid_Some: "fst (parse_accepted_hybrid v u sp raw lg) \<noteq> None"
  by (simp add: parse_accepted_hybrid_def Let_def)

lemma parse_other_link_fields:
  "parse_other_link v u sp raw lg = (Some e, lg') \<Longrightarrow>
     entry_type e = OTHER_LINK \<and> species_name e = sp \<and> e_synonyms e = []"
  by (auto simp: parse_other_link_def Let_def split: prod.splits)

lemma parse_other_link_Some: "fst (parse_other_link v u sp raw lg) \<noteq> None"
  by (simp add: parse_other_link_def Let_def split: prod.splits)

lemma re_split1_two: "re_search p s \<noteq> None \<Longrightarrow> \<exists>p0 p1. re_split1 p s = [p0, p1]"
  by (auto simp: re_split1_def split: option.splits)

lemma parse_synonym_equals_fields:
  "parse_synonym_equals v u sp raw lg = (Some e, lg') \<Longrightarrow>
     entry_type e = SYNONYM_EQUALS \<and> species_name e = sp \<and> length (e_synonyms e) = 1"
  by (auto simp: parse_synonym_equals_def Let_def split: prod.splits list.splits)

lemma parse_synonym_equals_Some:
  "re_search equals_pattern v \<noteq> None \<Longrightarrow> fst (parse_synonym_equals v u sp raw lg) \<noteq> None"
proof -
  assume "re_search equals_pattern v \<noteq> None"
  then obtain p0 p1 where "re_split1 equals_pattern v = [p0, p1]"
    using re_split1_two by blast
  then show ?thesis
    by (simp add: parse_synonym_equals_def Let_def split: prod.splits)
qed

lemma parse_synonym_see_fields:
  "parse_synonym_see v u sp raw lg = (Some e, lg') \<Longrightarrow>
     entry_type e = SYNONYM_SEE \<and> species_name e = sp"
  by (auto simp: parse_synonym_see_def Let_def split: prod.splits list.splits)

lemma parse_synonym_see_Some:
  "re_search see_pattern v \<noteq> None \<Longrightarrow> fst (parse_synonym_see v u sp raw lg) \<noteq> None"
proof -
  assume "re_search see_pattern v \<noteq> None"
  then obtain p0 p1 where "re_split1 see_pattern v = [p0, p1]"
    using re_split1_two by blast
  then show ?thesis
    by (simp add: parse_synonym_see_def Let_def split: prod.splits)
qed

text \<open>The dispatch of parse\_line once the link-derived name is known.\<close>

lemma parse_line_unfold:
  assumes "extract_links_from_line unescape (py_strip line) = (href, ltext) # others"
      and "extract_species_from_url href = Some sp" and "sp \<noteq> []"
  shows "parse_line unescape urljoin line base_url lg =
     (let l = py_strip line; v = strip_html_tags unescape l; u = urljoin base_url href;
          lg1 = (if card (set (map fst ((href, ltext) # others))) > 1
                 then log_inconsistency
                        (Multiple_links (set (map fst ((href, ltext) # others))) v) lg
                 else lg) in
      if re_search see_pattern v \<noteq> None then parse_synonym_see v u sp l lg1
      else if re_search equals_pattern v \<noteq> None then parse_synonym_equals v u sp l lg1
      else if re_match starts_with_link_pattern l \<noteq> None
      then (if is_hybrid v then parse_accepted_hybrid v u sp l lg1
            else parse_accepted_species v u sp l lg1)
      else parse_other_link v u sp l lg1)"
  using assms by (simp add: parse_line_def Let_def truthy_def)

lemma parse_line_None_links:
  "extract_links_from_line unescape (py_strip line) = [] \<Longrightarrow>
     fst (parse_line unescape urljoin line base_url lg) = None"
  by (simp add: parse_line_def Let_def)

lemma parse_line_None_species:
  "extract_links_from_line unescape (py_strip line) = (href, ltext) # others \<Longrightarrow>
   \<not> truthy (extract_species_from_url href) \<Longrightarrow>
     fst (parse_line unescape urljoin line base_url lg) = None"
  by (simp add: parse_line_def Let_def)

lemma parse_line_Some_link:
  assumes "fst (parse_line unescape urljoin line base_url lg) = Some e"
  shows "\<exists>href ltext others sp. extract_links_from_line unescape (py_strip line) = (href, ltext) # others
            \<and> extract_species_from_url href = Some sp \<and> sp \<noteq> []"
proof (cases "extract_links_from_line unescape (py_strip line)")
  case Nil
  with assms show ?thesis by (simp add: parse_line_None_links)
next
  case (Cons a others)
  obtain href ltext where a: "a = (href, ltext)" by (cases a)
  show ?thesis
  proof (cases "truthy (extract_species_from_url href)")
    case False
    with assms Cons a show ?thesis by (simp add: parse_line_None_species)
  next
    case True
    then show ?thesis using Cons a by (auto simp: truthy_def split: option.splits)
  qed
qed

lemma fst_SomeD: "fst x = Some e \<Longrightarrow> \<exists>lg'. x = (Some e, lg')"
  by (cases x) simp

lemma parse_line_entry:
  assumes "fst (parse_line unescape urljoin line base_url lg) = Some e"
  shows "\<exists>href ltext others.
           extract_links_from_line unescape (py_strip line) = (href, ltext) # others
         \<and> extract_species_from_url href = Some (species_name e)
         \<and> species_name e \<noteq> []
         \<and> entry_type e =
             (if re_search see_pattern (strip_html_tags unescape (py_strip line)) \<noteq> None
              then SYNONYM_SEE
              else if re_search equals_pattern (strip_html_tags unescape (py_strip line)) \<noteq> None
              then SYNONYM_EQUALS
              else if re_match starts_with_link_pattern (py_strip line) \<noteq> None
              then (if is_hybrid (strip_html_tags unescape (py_strip line))
                    then ACCEPTED_HYBRID else ACCEPTED_SPECIES)
              else OTHER_LINK)
         \<and> (entry_type e \<noteq> SYNONYM_SEE \<and> entry_type e \<noteq> SYNONYM_EQUALS
              \<longrightarrow> e_synonyms e = [])
         \<and> (entry_type e = SYNONYM_EQUALS \<longrightarrow>
              (\<exists>u lg1. fst (parse_synonym_equals (strip_html_tags unescape (py_strip line)) u
                              (species_name e) (py_strip line) lg1) = Some e))"
proof -
  from parse_line_Some_link[OF assms] obtain href ltext others sp where
    links: "extract_links_from_line unescape (py_strip line) = (href, ltext) # others"
    and sp: "extract_species_from_url href = Some sp" "sp \<noteq> []" by blast
  define l where "l = py_strip line"
  define v where "v = strip_html_tags unescape l"
  define u where "u = urljoin base_url href"
  define lg1 where "lg1 = (if card (set (map fst ((href, ltext) # others))) > 1
                 then log_inconsistency
                        (Multiple_links (set (map fst ((href, ltext) # others))) v) lg
                 else lg)"
  have eq: "parse_line unescape urljoin line base_url lg =
      (if re_search see_pattern v \<noteq> None then parse_synonym_see v u sp l lg1
      else if re_search equals_pattern v \<noteq> None then parse_synonym_equals v u sp l lg1
      else if re_match starts_with_link_pattern l \<noteq> None
      then (if is_hybrid v then parse_accepted_hybrid v u sp l lg1
            else parse_accepted_species v u sp l lg1)
      else parse_other_link v u sp l lg1)"
    unfolding parse_line_unfold[OF links sp] Let_def l_def v_def u_def lg1_def ..
  have fields: "species_name e = sp \<and> entry_type e =
             (if re_search see_pattern v \<noteq> None then SYNONYM_SEE
              else if re_search equals_pattern v \<noteq> None then SYNONYM_EQUALS
              else if re_match starts_with_link_pattern l \<noteq> None
              then (if is_hybrid v then ACCEPTED_HYBRID else ACCEPTED_SPECIES)
              else OTHER_LINK)
         \<and> (entry_type e \<noteq> SYNONYM_SEE \<and> entry_type e \<noteq> SYNONYM_EQUALS
              \<longrightarrow> e_synonyms e = [])
         \<and> (entry_type e = SYNONYM_EQUALS \<longrightarrow>
              (\<exists>u lg1. fst (parse_synonym_equals v u sp l lg1) = Some e))"
  proof (cases "re_search see_pattern v \<noteq> None")
    case True
    with assms eq have "fst (parse_synonym_see v u sp l lg1) = Some e" by simp
    from fst_SomeD[OF this] parse_synonym_see_fields True show ?thesis by fastforce
  next
    case nsee: False
    show ?thesis
    proof (cases "re_search equals_pattern v \<noteq> None")
      case True
      with nsee assms eq have pe: "fst (parse_synonym_equals v u sp l lg1) = Some e" by simp
      then have "\<exists>u lg1. fst (parse_synonym_equals v u sp l lg1) = Some e" by blast
      with fst_SomeD[OF pe] parse_synonym_equals_fields True nsee show ?thesis by fastforce
    next
      case neq: False
      show ?thesis
      proof (cases "re_match starts_with_link_pattern l \<noteq> None")
        case starts: True
        show ?thesis
        proof (cases "is_hybrid v")
          case True
          with nsee neq starts assms eq
          have "fst (parse_accepted_hybrid v u sp l lg1) = Some e" by simp
          from fst_SomeD[OF this] parse_accepted_hybrid_fields True nsee neq starts
          show ?thesis by fastforce
        next
          case False
          with nsee neq starts assms eq
          have "fst (parse_accepted_species v u sp l lg1) = Some e" by simp
          from fst_SomeD[OF this] parse_accepted_species_fields False nsee neq starts
          show ?thesis by fastforce
        qed
      next
        case False
        with nsee neq assms eq have "fst (parse_other_link v u sp l lg1) = Some e" by simp
        from fst_SomeD[OF this] parse_other_link_fields False nsee neq
        show ?thesis by fastforce
      qed
    qed
  qed
  then have "species_name e = sp" by simp
  with fields links sp show ?thesis unfolding v_def l_def by blast
qed

lemma parse_line_None_iff:
  "fst (parse_line unescape urljoin line base_url lg) = None \<longleftrightarrow>
     (case extract_links_from_line unescape (py_strip line) of
        [] \<Rightarrow> True
      | (href, ltext) # others \<Rightarrow>
          \<not> truthy (extract_species_from_url href)
          \<or> (re_search see_pattern (strip_html_tags unescape (py_strip line)) = None
             \<and> re_search equals_pattern (strip_html_tags unescape (py_strip line)) = None
             \<and> re_match starts_with_link_pattern (py_strip line) \<noteq> None
             \<and> \<not> is_hybrid (strip_html_tags unescape (py_strip line))
             \<and> py_split (strip_html_tags unescape (py_strip line)) = []))"
proof (cases "extract_links_from_line unescape (py_strip line)")
  case Nil
  then show ?thesis by (simp add: parse_line_None_links)
next
  case (Cons a others)
  obtain href ltext where a: "a = (href, ltext)" by (cases a)
  show ?thesis
  proof (cases "truthy (extract_species_from_url href)")
    case False
    with Cons a show ?thesis by (simp add: parse_line_None_species)
  next
    case True
    then obtain sp where sp: "extract_species_from_url href = Some sp" "sp \<noteq> []"
      by (auto simp: truthy_def split: option.splits)
    from Cons a have links: "extract_links_from_line unescape (py_strip line) = (href, ltext) # others"
      by simp
    define v where "v = strip_html_tags unescape (py_strip line)"
    have "(fst (parse_line unescape urljoin line base_url lg) = None) =
          (re_search see_pattern v = None \<and> re_search equals_pattern v = None
           \<and> re_match starts_with_link_pattern (py_strip line) \<noteq> None
           \<and> \<not> is_hybrid v \<and> py_split v = [])"
      unfolding parse_line_unfold[OF links sp] Let_def v_def[symmetric]
      by (cases "re_search see_pattern v = None"; cases "re_search equals_pattern v = None";
          cases "re_match starts_with_link_pattern (py_strip line) = None"; cases "is_hybrid v")
         (simp_all only: if_True if_False not_False_eq_True not_True_eq_False simp_thms
            parse_synonym_see_Some parse_synonym_equals_Some
            parse_accepted_hybrid_Some parse_other_link_Some parse_accepted_species_None)
    then show ?thesis using True links by (simp add: v_def)
  qed
qed

lemma py_split_aux_words:
  "\<forall>c\<in>set cur. \<not> py_isspace c \<Longrightarrow> w \<in> set (py_split_aux cur s) \<Longrightarrow>
     w \<noteq> [] \<and> (\<forall>c\<in>set w. \<not> py_isspace c)"
proof (induction s arbitrary: cur)
  case Nil
  then show ?case by (auto split: if_splits)
next
  case (Cons a s)
  show ?case
  proof (cases "py_isspace a")
    case True
    with Cons.prems have "w = cur \<and> cur \<noteq> [] \<or> w \<in> set (py_split_aux [] s)"
      by (auto split: if_splits)
    then show ?thesis
    proof
      assume "w = cur \<and> cur \<noteq> []"
      with Cons.prems(1) show ?thesis by simp
    next
      assume "w \<in> set (py_split_aux [] s)"
      then show ?thesis using Cons.IH[of "[]"] by simp
    qed
  next
    case False
    with Cons.prems have "w \<in> set (py_split_aux (cur @ [a]) s)" by simp
    moreover have "\<forall>c\<in>set (cur @ [a]). \<not> py_isspace c" using False Cons.prems(1) by simp
    ultimately show ?thesis using Cons.IH[of "cur @ [a]"] by blast
  qed
qed

lemma py_split_words:
  "w \<in> set (py_split s) \<Longrightarrow> w \<noteq> [] \<and> (\<forall>c\<in>set w. \<not> py_isspace c)"
  unfolding py_split_def by (rule py_split_aux_words[of "[]"]) auto

lemma py_strip_ends:
  assumes "s \<noteq> []" "\<not> py_isspace (hd s)" "\<not> py_isspace (last s)"
  shows "py_strip s = s"
proof -
  have a: "dropWhile py_isspace s = s" using assms by (cases s) auto
  have "rev s \<noteq> []" "\<not> py_isspace (hd (rev s))" using assms by (auto simp: hd_rev)
  then have "dropWhile py_isspace (rev s) = rev s" by (cases "rev s") auto
  with a show ?thesis by (simp add: py_strip_def)
qed

lemma py_strip_word: "\<forall>c\<in>set w. \<not> py_isspace c \<Longrightarrow> py_strip w = w"
proof (cases "w = []")
  case True
  then show ?thesis by (simp add: py_strip_def)
next
  case False
  assume "\<forall>c\<in>set w. \<not> py_isspace c"
  with False have "\<not> py_isspace (hd w)" "\<not> py_isspace (last w)" by simp_all
  with False show ?thesis by (rule py_strip_ends)
qed

lemma py_join_ends:
  "wl \<noteq> [] \<Longrightarrow> \<forall>w\<in>set wl. w \<noteq> [] \<Longrightarrow>
     py_join sep wl \<noteq> [] \<and> hd (py_join sep wl) = hd (hd wl) \<and> last (py_join sep wl) = last (last wl)"
  by (induction sep wl rule: py_join.induct) auto

lemma py_strip_join:
  assumes "wl \<noteq> []" "\<forall>w\<in>set wl. w \<noteq> [] \<and> (\<forall>c\<in>set w. \<not> py_isspace c)"
  shows "py_strip (py_join sep wl) = py_join sep wl \<and> py_join sep wl \<noteq> []"
proof -
  from assms have e: "py_join sep wl \<noteq> []" "hd (py_join sep wl) = hd (hd wl)"
    "last (py_join sep wl) = last (last wl)" using py_join_ends[of wl sep] by auto
  from assms have "hd wl \<in> set wl" "last wl \<in> set wl" by auto
  with assms have "\<not> py_isspace (hd (hd wl))" "\<not> py_isspace (last (last wl))"
    by (metis hd_in_set, metis last_in_set)
  with e show ?thesis by (simp add: py_strip_ends)
qed



text \<open>
  C2, as stated, fails: this line holds a link, shows neither separator, begins with the
  link and carries no hybrid marker, and yet it is not classified as an accepted species:
  \<open>parse_line\<close> returns no entry for it.
\<close>

theorem parse_line_classification_counterexample:
  "extract_links_from_line example_unescape (py_strip example_empty_anchor_line) \<noteq> []
   \<and> re_search see_pattern
        (strip_html_tags example_unescape (py_strip example_empty_anchor_line)) = None
   \<and> re_search equals_pattern
        (strip_html_tags example_unescape (py_strip example_empty_anchor_line)) = None
   \<and> re_match starts_with_link_pattern (py_strip example_empty_anchor_line) \<noteq> None
   \<and> \<not> is_hybrid (strip_html_tags example_unescape (py_strip example_empty_anchor_line))
   \<and> fst (parse_line example_unescape example_urljoin example_empty_anchor_line example_base [])
       = None"
  by code_simp

text \<open>
  C2, amended. For every raw line for which \<open>parse_line\<close> returns an entry, the entry
  type follows the first-match order: the see separator, else the equals separator, else
  (the line beginning with a link) hybrid or species by the hybrid-marker predicate, else
  other. \<open>parse_line\<close> returns no entry exactly when the line has no link, or no
  species name can be read from the first link, or the line would be an accepted species
  and has no visible word.
\<close>

theorem parse_line_classification:
  "(fst (parse_line unescape urljoin line base_url lg) = Some e \<longrightarrow>
      entry_type e =
        (if re_search see_pattern (strip_html_tags unescape (py_strip line)) \<noteq> None
         then SYNONYM_SEE
         else if re_search equals_pattern (strip_html_tags unescape (py_strip line)) \<noteq> None
         then SYNONYM_EQUALS
         else if re_match starts_with_link_pattern (py_strip line) \<noteq> None
         then (if is_hybrid (strip_html_tags unescape (py_strip line))
               then ACCEPTED_HYBRID else ACCEPTED_SPECIES)
         else OTHER_LINK))
   \<and> (fst (parse_line unescape urljoin line base_url lg) = None \<longleftrightarrow>
        (case extract_links_from_line unescape (py_strip line) of
           [] \<Rightarrow> True
         | (href, ltext) # others \<Rightarrow>
             \<not> truthy (extract_species_from_url href)
             \<or> (re_search see_pattern (strip_html_tags unescape (py_strip line)) = None
                \<and> re_search equals_pattern (strip_html_tags unescape (py_strip line)) = None
                \<and> re_match starts_with_link_pattern (py_strip line) \<noteq> None
                \<and> \<not> is_hybrid (strip_html_tags unescape (py_strip line))
                \<and> py_split (strip_html_tags unescape (py_strip line)) = [])))"
proof (intro conjI impI)
  assume "fst (parse_line unescape urljoin line base_url lg) = Some e"
  from parse_line_entry[OF this] show "entry_type e =
        (if re_search see_pattern (strip_html_tags unescape (py_strip line)) \<noteq> None
         then SYNONYM_SEE
         else if re_search equals_pattern (strip_html_tags unescape (py_strip line)) \<noteq> None
         then SYNONYM_EQUALS
         else if re_match starts_with_link_pattern (py_strip line) \<noteq> None
         then (if is_hybrid (strip_html_tags unescape (py_strip line))
               then ACCEPTED_HYBRID else ACCEPTED_SPECIES)
         else OTHER_LINK)" by blast
next
  show "fst (parse_line unescape urljoin line base_url lg) = None \<longleftrightarrow>
        (case extract_links_from_line unescape (py_strip line) of
           [] \<Rightarrow> True
         | (href, ltext) # others \<Rightarrow>
             \<not> truthy (extract_species_from_url href)
             \<or> (re_search see_pattern (strip_html_tags unescape (py_strip line)) = None
                \<and> re_search equals_pattern (strip_html_tags unescape (py_strip line)) = None
                \<and> re_match starts_with_link_pattern (py_strip line) \<noteq> None
                \<and> \<not> is_hybrid (strip_html_tags unescape (py_strip line))
                \<and> py_split (strip_html_tags unescape (py_strip line)) = []))"
    by (rule parse_line_None_iff)
qed

theorem parse_line_classification_witness:
  "fst (parse_line example_unescape example_urljoin example_species_line example_base [])
     = Some \<lparr>entry_type = ACCEPTED_SPECIES, species_name = ''robur'', e_author = Some ''L.'',
              e_url = ''https://oaksoftheworld.fr/quercus_robur.htm'', e_is_hybrid = False,
              e_synonyms = [], raw_line = example_species_line\<rparr>
   \<and> re_search see_pattern
        (strip_html_tags example_unescape (py_strip example_species_line)) = None
   \<and> re_search equals_pattern
        (strip_html_tags example_unescape (py_strip example_species_line)) = None
   \<and> re_match starts_with_link_pattern (py_strip example_species_line) \<noteq> None
   \<and> \<not> is_hybrid (strip_html_tags example_unescape (py_strip example_species_line))"
proof -
  let ?e = "\<lparr>entry_type = ACCEPTED_SPECIES, species_name = ''robur'', e_author = Some ''L.'',
              e_url = ''https://oaksoftheworld.fr/quercus_robur.htm'', e_is_hybrid = False,
              e_synonyms = [], raw_line = example_species_line\<rparr>"
  have h: "fst (parse_line example_unescape example_urljoin example_species_line example_base [])
     = Some ?e"
    by code_simp
  have a: "re_search see_pattern
        (strip_html_tags example_unescape (py_strip example_species_line)) = None"
    by code_simp
  have b: "re_search equals_pattern
        (strip_html_tags example_unescape (py_strip example_species_line)) = None"
    by code_simp
  from parse_line_classification[of example_unescape example_urljoin example_species_line
      example_base "[]" ?e] h a b
  have "ACCEPTED_SPECIES =
      (if re_match starts_with_link_pattern (py_strip example_species_line) \<noteq> None
       then (if is_hybrid (strip_html_tags example_unescape (py_strip example_species_line))
             then ACCEPTED_HYBRID else ACCEPTED_SPECIES)
       else OTHER_LINK)"
    by simp
  then have "re_match starts_with_link_pattern (py_strip example_species_line) \<noteq> None
     \<and> \<not> is_hybrid (strip_html_tags example_unescape (py_strip example_species_line))"
    by (simp split: if_splits)
  with h a b show ?thesis by simp
qed

section \<open>Properties of chain resolution\<close>

lemma resolve_synonym_reporter: "snd (resolve_synonym frames name smap visited lg) = lg"
  by (induction frames name smap visited lg rule: resolve_synonym.induct)
     (auto split: option.splits)

lemma resolve_synonym_step:
  assumes "name \<notin> visited" "map_of smap name = Some nxt"
  shows "resolve_synonym (Suc frames) name smap visited lg
           = resolve_synonym frames nxt smap (insert name visited) lg"
proof -
  from assms(2) have "name \<in> fst ` set smap"
    by (metis map_of_eq_None_iff option.distinct(1))
  with assms show ?thesis by simp
qed






lemma resolve_synonym_walk:
  "is_walk smap (pre @ [z]) \<Longrightarrow> distinct pre \<Longrightarrow> set pre \<inter> visited = {} \<Longrightarrow>
   z \<in> visited \<union> set pre \<Longrightarrow> length pre < frames \<Longrightarrow>
     resolve_synonym frames (hd (pre @ [z])) smap visited lg = (Inr z, lg)"
proof (induction pre arbitrary: visited frames)
  case Nil
  then obtain d where "frames = Suc d" by (cases frames) auto
  with Nil show ?case by simp
next
  case (Cons x pre)
  from Cons.prems(5) obtain d where d: "frames = Suc d" "length pre < d" by (cases frames) auto
  from Cons.prems(1) have nxt: "map_of smap x = Some (hd (pre @ [z]))"
    and w: "is_walk smap (pre @ [z])" by (cases pre; simp)+
  from Cons.prems(3) have nv: "x \<notin> visited" by simp
  have "resolve_synonym d (hd (pre @ [z])) smap (insert x visited) lg = (Inr z, lg)"
    using Cons.prems by (intro Cons.IH[OF w _ _ _ d(2)]) auto
  with resolve_synonym_step[OF nv nxt] d show ?case by simp
qed




text \<open>
  C8, as stated, fails: on the dictionary \<open>{a: b, b: a}\<close> the walk from \<open>a\<close> writes no
  note at all, so the number of notes is not one.
\<close>

theorem resolve_synonym_cycle_note_counterexample:
  "length (snd (resolve_synonym 1000 ''a'' [(''a'', ''b''), (''b'', ''a'')] {} [])) \<noteq> 1"
  by (simp add: resolve_synonym_reporter)

text \<open>
  C8, amended. When the walk from a name follows the dictionary through names that are
  distinct and not yet visited and then reaches a name that was visited before or lies
  earlier on the walk, and the interpreter has a frame for every step, the call returns
  that recurring name; and \<open>resolve_synonym\<close> never writes to the reporter, on any input.
\<close>

theorem resolve_synonym_cycle_silent:
  "(is_walk smap (pre @ [z]) \<and> distinct pre \<and> set pre \<inter> visited = {}
      \<and> z \<in> visited \<union> set pre \<and> length pre < frames \<longrightarrow>
        resolve_synonym frames (hd (pre @ [z])) smap visited lg = (Inr z, lg))
   \<and> snd (resolve_synonym frames name smap visited lg) = lg"
  using resolve_synonym_walk[of smap pre z visited frames lg]
  by (simp add: resolve_synonym_reporter)

theorem resolve_synonym_cycle_silent_witness:
  "is_walk [(''a'', ''b''), (''b'', ''c''), (''c'', ''b'')] ([''a'', ''b'', ''c''] @ [''b''])
   \<and> distinct [''a'', ''b'', ''c''] \<and> set [''a'', ''b'', ''c''] \<inter> {} = {}
   \<and> ''b'' \<in> {} \<union> set [''a'', ''b'', ''c''] \<and> length [''a'', ''b'', ''c''] < (1000 :: nat)
   \<and> resolve_synonym 1000 ''a'' [(''a'', ''b''), (''b'', ''c''), (''c'', ''b'')] {} []
       = (Inr ''b'', [])
   \<and> resolve_synonym 1000 ''a'' [(''a'', ''b''), (''b'', ''a'')] {} [] = (Inr ''a'', [])"
proof -
  have h: "is_walk [(''a'', ''b''), (''b'', ''c''), (''c'', ''b'')] ([''a'', ''b'', ''c''] @ [''b''])
     \<and> distinct [''a'', ''b'', ''c''] \<and> set [''a'', ''b'', ''c''] \<inter> {} = {}
     \<and> ''b'' \<in> {} \<union> set [''a'', ''b'', ''c''] \<and> length [''a'', ''b'', ''c''] < (1000 :: nat)"
    by simp
  have g: "is_walk [(''a'', ''b''), (''b'', ''a'')] ([''a'', ''b''] @ [''a''])
     \<and> distinct [''a'', ''b''] \<and> set [''a'', ''b''] \<inter> {} = {}
     \<and> ''a'' \<in> {} \<union> set [''a'', ''b''] \<and> length [''a'', ''b''] < (1000 :: nat)"
    by simp
  from resolve_synonym_cycle_silent[of "[(''a'', ''b''), (''b'', ''c''), (''c'', ''b'')]"
      "[''a'', ''b'', ''c'']" "''b''" "{}" 1000 "[]"] h
  have a: "resolve_synonym 1000 ''a'' [(''a'', ''b''), (''b'', ''c''), (''c'', ''b'')] {} []
       = (Inr ''b'', [])" by simp
  from resolve_synonym_cycle_silent[of "[(''a'', ''b''), (''b'', ''a'')]"
      "[''a'', ''b'']" "''a''" "{}" 1000 "[]"] g
  have b: "resolve_synonym 1000 ''a'' [(''a'', ''b''), (''b'', ''a'')] {} [] = (Inr ''a'', [])"
    by simp
  from h a b show ?thesis by blast
qed

section \<open>Properties of the hand-off\<close>

text \<open>
  C9. The list handed to \<open>save_final_output\<close> is in ascending order of name, whatever
  list reaches the sort, and holds the same records; in particular when the records are
  those \<open>parse_species_list_html\<close> returns for any page text.
\<close>

theorem final_output_sorted:
  "sorted (map r_name (final_output all_species))
   \<and> mset (final_output all_species) = mset all_species
   \<and> sorted (map r_name (final_output
        (fst (fst (parse_species_list_html unescape urljoin html base_url lg)))))"
  by (simp add: final_output_def)

section \<open>Synonym lists of parsed entries\<close>


lemma aggregate_entry_no_synonyms:
  "e_synonyms e = [] \<Longrightarrow> synonym_map (aggregate_entry st e) = synonym_map st"
  by (auto simp: aggregate_entry_def Let_def split: option.splits)

lemma aggregate_entry_nameless_synonym:
  "e_synonyms e = [syn] \<Longrightarrow> \<not> truthy (s_name syn) \<Longrightarrow>
     synonym_map (aggregate_entry st e) = synonym_map st"
  by (auto simp: aggregate_entry_def Let_def add_synonym_mapping_def split: option.splits)

lemma aggregate_entry_other_record:
  "entry_type e = OTHER_LINK \<Longrightarrow>
     map_of (accepted_species (aggregate_entry st e)) (species_name e) \<noteq> None"
  by (auto simp: aggregate_entry_def Let_def update_conv' split: option.splits)

lemma parse_synonym_equals_synonym:
  assumes "fst (parse_synonym_equals v u sp raw lg) = Some e"
  shows "\<exists>syn. e_synonyms e = [syn]
          \<and> (truthy (s_name syn) \<longleftrightarrow> py_split (py_strip (hd (re_split1 equals_pattern v))) \<noteq> [])"
proof -
  from assms obtain p0 p1 where sp: "re_split1 equals_pattern v = [p0, p1]"
    by (auto simp: parse_synonym_equals_def split: list.splits)
  define wl where "wl = py_split (py_strip p0)"
  have tr: "truthy (first_word wl) \<longleftrightarrow> wl \<noteq> []"
  proof (cases wl)
    case Nil
    then show ?thesis by (simp add: first_word_def truthy_def)
  next
    case (Cons w ws')
    then have "w \<in> set (py_split (py_strip p0))" by (simp add: wl_def)
    from py_split_words[OF this] have "w \<noteq> []" "py_strip w = w"
      by (simp_all add: py_strip_word)
    with Cons show ?thesis by (simp add: first_word_def truthy_def)
  qed
  from assms sp have "e_synonyms e = [\<lparr>s_name = first_word wl,
        s_author = none_if_blank (rest_joined wl)\<rparr>]"
    by (auto simp: parse_synonym_equals_def Let_def wl_def split: prod.splits)
  with tr sp show ?thesis by (simp add: wl_def)
qed

text \<open>
  C10. An entry \<open>parse_line\<close> returns has an empty synonym list when its type is
  accepted species, accepted hybrid or other link, and exactly one synonym sub-record when
  its type is synonym-equals; the name of that sub-record is absent exactly when no word
  stands left of the equals sign, and then aggregating the entry adds nothing to the
  synonym map. Aggregating an other-link entry leaves the synonym map as it is and makes
  sure a record for the species exists.
\<close>

theorem parse_line_synonyms:
  assumes "fst (parse_line unescape urljoin line base_url lg) = Some e"
  shows "(entry_type e \<in> {ACCEPTED_SPECIES, ACCEPTED_HYBRID, OTHER_LINK} \<longrightarrow> e_synonyms e = [])
       \<and> (entry_type e = SYNONYM_EQUALS \<longrightarrow>
            (\<exists>syn. e_synonyms e = [syn]
               \<and> (truthy (s_name syn) \<longleftrightarrow>
                    py_split (py_strip (hd (re_split1 equals_pattern
                       (strip_html_tags unescape (py_strip line))))) \<noteq> [])
               \<and> (\<not> truthy (s_name syn) \<longrightarrow>
                    synonym_map (aggregate_entry st e) = synonym_map st)))
       \<and> (entry_type e = OTHER_LINK \<longrightarrow>
            synonym_map (aggregate_entry st e) = synonym_map st
          \<and> map_of (accepted_species (aggregate_entry st e)) (species_name e) \<noteq> None)"
proof (intro conjI impI)
  assume "entry_type e \<in> {ACCEPTED_SPECIES, ACCEPTED_HYBRID, OTHER_LINK}"
  with parse_line_entry[OF assms] show "e_synonyms e = []" by auto
next
  assume "entry_type e = SYNONYM_EQUALS"
  with parse_line_entry[OF assms] obtain u lg1 where
    "fst (parse_synonym_equals (strip_html_tags unescape (py_strip line)) u
            (species_name e) (py_strip line) lg1) = Some e" by auto
  from parse_synonym_equals_synonym[OF this] obtain syn where
    syn: "e_synonyms e = [syn]"
      "truthy (s_name syn) \<longleftrightarrow> py_split (py_strip (hd (re_split1 equals_pattern
                       (strip_html_tags unescape (py_strip line))))) \<noteq> []" by blast
  then show "\<exists>syn. e_synonyms e = [syn]
               \<and> (truthy (s_name syn) \<longleftrightarrow>
                    py_split (py_strip (hd (re_split1 equals_pattern
                       (strip_html_tags unescape (py_strip line))))) \<noteq> [])
               \<and> (\<not> truthy (s_name syn) \<longrightarrow>
                    synonym_map (aggregate_entry st e) = synonym_map st)"
    using aggregate_entry_nameless_synonym[of e syn st] by blast
next
  assume ol: "entry_type e = OTHER_LINK"
  with parse_line_entry[OF assms] have "e_synonyms e = []" by auto
  then show "synonym_map (aggregate_entry st e) = synonym_map st"
    by (rule aggregate_entry_no_synonyms)
  from ol show "map_of (accepted_species (aggregate_entry st e)) (species_name e) \<noteq> None"
    by (rule aggregate_entry_other_record)
qed

theorem parse_line_synonyms_witness:
  "fst (parse_line example_unescape example_urljoin example_nameless_equals_line example_base [])
     = Some \<lparr>entry_type = SYNONYM_EQUALS, species_name = ''alba'', e_author = None,
              e_url = ''https://oaksoftheworld.fr/quercus_alba.htm'', e_is_hybrid = False,
              e_synonyms = [\<lparr>s_name = None, s_author = None\<rparr>],
              raw_line = example_nameless_equals_line\<rparr>
   \<and> synonym_map (aggregate_entry empty_aggregate
         \<lparr>entry_type = SYNONYM_EQUALS, species_name = ''alba'', e_author = None,
          e_url = ''https://oaksoftheworld.fr/quercus_alba.htm'', e_is_hybrid = False,
          e_synonyms = [\<lparr>s_name = None, s_author = None\<rparr>],
          raw_line = example_nameless_equals_line\<rparr>) = []"
proof -
  let ?e = "\<lparr>entry_type = SYNONYM_EQUALS, species_name = ''alba'', e_author = None,
              e_url = ''https://oaksoftheworld.fr/quercus_alba.htm'', e_is_hybrid = False,
              e_synonyms = [\<lparr>s_name = None, s_author = None\<rparr>],
              raw_line = example_nameless_equals_line\<rparr>"
  have h: "fst (parse_line example_unescape example_urljoin example_nameless_equals_line
             example_base []) = Some ?e"
    by code_simp
  from parse_line_synonyms[OF h, of empty_aggregate]
  have "synonym_map (aggregate_entry empty_aggregate ?e) = synonym_map empty_aggregate"
    by (simp add: truthy_def)
  with h show ?thesis by (simp add: empty_aggregate_def)
qed

section \<open>The worked hybrid example\<close>

lemma example3_words:
  "startswith example3_text [times_sign]
   \<and> py_split (py_strip (re_sub_empty_bol leading_x_pattern example3_text))
       = [''subfalcata'', ''(x)'', ''Author'', ''Name'']"
  by code_simp

lemma example3_author:
  "first_word [''subfalcata'', ''(x)'', ''Author'', ''Name''] = Some ''subfalcata''
   \<and> rest_joined [''subfalcata'', ''(x)'', ''Author'', ''Name''] = Some ''(x) Author Name''
   \<and> py_strip ''(x) Author Name'' = ''(x) Author Name''
   \<and> py_lower ''subfalcata'' = ''subfalcata''"
  by code_simp

lemma example3_embedded_words:
  "\<not> startswith example3_embedded_text [times_sign]
   \<and> \<not> startswith (py_lower example3_embedded_text) ''x ''
   \<and> py_split (py_strip (re_sub_empty marker_pattern example3_embedded_text))
       = [''subfalcata'', ''Author'', ''Name'']"
  by code_simp

lemma example3_embedded_author:
  "first_word [''subfalcata'', ''Author'', ''Name''] = Some ''subfalcata''
   \<and> rest_joined [''subfalcata'', ''Author'', ''Name''] = Some ''Author Name''
   \<and> py_strip ''Author Name'' = ''Author Name''"
  by code_simp

text \<open>
  C3. The claim is what the function's own description promises (everything after the
  species name and the marker is the author), and the code misses it at the input of
  Example 3. For the visible text \<open>\<times> subfalcata (x) Author Name\<close> and the link-derived
  name \<open>subfalcata\<close> the entry has the name \<open>subfalcata\<close> and the hybrid flag, but its
  author is \<open>(x) Author Name\<close>: the branch for a leading hybrid sign removes that sign
  only. The other branch, on the same name and author with the embedded marker alone,
  removes the marker and gives the author \<open>Author Name\<close>. The record made from the entry
  of Example 3 carries the author with the marker, and so does the entry \<open>parse_line\<close>
  returns for the whole line.
\<close>

theorem parse_accepted_hybrid_example3:
  "parse_accepted_hybrid example3_text u ''subfalcata'' raw lg =
     (Some \<lparr>entry_type = ACCEPTED_HYBRID, species_name = ''subfalcata'',
             e_author = Some ''(x) Author Name'', e_url = u, e_is_hybrid = True,
             e_synonyms = [], raw_line = raw\<rparr>, lg)
   \<and> parse_accepted_hybrid example3_embedded_text u ''subfalcata'' raw lg =
     (Some \<lparr>entry_type = ACCEPTED_HYBRID, species_name = ''subfalcata'',
             e_author = Some ''Author Name'', e_url = u, e_is_hybrid = True,
             e_synonyms = [], raw_line = raw\<rparr>, lg)
   \<and> accepted_species (aggregate_entry empty_aggregate
        \<lparr>entry_type = ACCEPTED_HYBRID, species_name = ''subfalcata'',
         e_author = Some ''(x) Author Name'', e_url = u, e_is_hybrid = True,
         e_synonyms = [], raw_line = raw\<rparr>)
     = [(''subfalcata'', \<lparr>r_name = ''subfalcata'', r_author = Some ''(x) Author Name'',
                          r_url = u, r_is_hybrid = True, r_synonyms = []\<rparr>)]
   \<and> strip_html_tags example_unescape example3_line = example3_text
   \<and> fst (parse_line example_unescape example_urljoin example3_line example_base [])
     = Some \<lparr>entry_type = ACCEPTED_HYBRID, species_name = ''subfalcata'',
              e_author = Some ''(x) Author Name'',
              e_url = ''https://oaksoftheworld.fr/quercus_subfalcata.htm'', e_is_hybrid = True,
              e_synonyms = [], raw_line = example3_line\<rparr>"
proof (intro conjI)
  show "strip_html_tags example_unescape example3_line = example3_text"
    by code_simp
  show "fst (parse_line example_unescape example_urljoin example3_line example_base [])
     = Some \<lparr>entry_type = ACCEPTED_HYBRID, species_name = ''subfalcata'',
              e_author = Some ''(x) Author Name'',
              e_url = ''https://oaksoftheworld.fr/quercus_subfalcata.htm'', e_is_hybrid = True,
              e_synonyms = [], raw_line = example3_line\<rparr>"
    by code_simp
  show "parse_accepted_hybrid example3_text u ''subfalcata'' raw lg =
     (Some \<lparr>entry_type = ACCEPTED_HYBRID, species_name = ''subfalcata'',
             e_author = Some ''(x) Author Name'', e_url = u, e_is_hybrid = True,
             e_synonyms = [], raw_line = raw\<rparr>, lg)"
    using example3_words example3_author
    by (simp add: parse_accepted_hybrid_def Let_def truthy_def)
  show "parse_accepted_hybrid example3_embedded_text u ''subfalcata'' raw lg =
     (Some \<lparr>entry_type = ACCEPTED_HYBRID, species_name = ''subfalcata'',
             e_author = Some ''Author Name'', e_url = u, e_is_hybrid = True,
             e_synonyms = [], raw_line = raw\<rparr>, lg)"
    using example3_embedded_words example3_embedded_author example3_author
    by (simp add: parse_accepted_hybrid_def Let_def truthy_def)
  show "accepted_species (aggregate_entry empty_aggregate
        \<lparr>entry_type = ACCEPTED_HYBRID, species_name = ''subfalcata'',
         e_author = Some ''(x) Author Name'', e_url = u, e_is_hybrid = True,
         e_synonyms = [], raw_line = raw\<rparr>)
     = [(''subfalcata'', \<lparr>r_name = ''subfalcata'', r_author = Some ''(x) Author Name'',
                          r_url = u, r_is_hybrid = True, r_synonyms = []\<rparr>)]"
    by (simp add: aggregate_entry_def empty_aggregate_def new_record_def)
qed

section \<open>The right-hand side of an equals line\<close>

lemma none_if_blank_joined:
  assumes "wl \<noteq> []" "\<forall>w\<in>set wl. w \<noteq> [] \<and> (\<forall>c\<in>set w. \<not> py_isspace c)"
  shows "none_if_blank (Some (py_strip (py_join '' '' wl))) = Some (py_join '' '' wl)"
  using py_strip_join[OF assms, of "'' ''"] by (simp add: none_if_blank_def truthy_def)

text \<open>
  C4. When the right-hand side of an equals line splits into words of which the first is
  \<open>x\<close> in either case and a second exists, the accepted-name text is the second word and
  the author words are those from the third on: the entry's author is their join (absent
  when there are none), and the mismatch note, when one is written, cites the second
  word. The \<open>x\<close> token is neither the name nor part of the author.
\<close>

theorem parse_synonym_equals_skips_x:
  assumes "re_split1 equals_pattern visible_text = [p0, p1]"
      and "py_split (py_strip p1) = w0 # w1 # rest"
      and "py_lower (py_strip w0) = ''x''"
  shows "accepted_name_and_author_words (py_split (py_strip p1)) = (Some w1, rest)
       \<and> (\<exists>e. parse_synonym_equals visible_text u species_from_url raw lg =
                 (Some e,
                  if py_lower w1 \<noteq> py_lower species_from_url
                  then log_inconsistency (Synonym_target_mismatch w1 species_from_url (Some raw)) lg
                  else lg)
              \<and> entry_type e = SYNONYM_EQUALS
              \<and> species_name e = species_from_url
              \<and> e_author e = (if rest = [] then None else Some (py_join '' '' rest)))"
proof -
  have good: "\<forall>w\<in>set (w0 # w1 # rest). w \<noteq> [] \<and> (\<forall>c\<in>set w. \<not> py_isspace c)"
    using py_split_words[of _ "py_strip p1"] assms(2) by metis
  then have w1: "w1 \<noteq> []" "py_strip w1 = w1" by (simp_all add: py_strip_word)
  have split: "accepted_name_and_author_words (w0 # w1 # rest) = (Some w1, rest)"
    using assms(3) w1 by (simp add: accepted_name_and_author_words_def)
  have author: "none_if_blank (if rest \<noteq> [] then Some (py_strip (py_join '' '' rest)) else None)
      = (if rest = [] then None else Some (py_join '' '' rest))"
  proof (cases "rest = []")
    case True
    then show ?thesis by (simp add: none_if_blank_def truthy_def)
  next
    case False
    with good none_if_blank_joined[of rest] show ?thesis by simp
  qed
  show ?thesis
    using assms(1,2) split author w1
    by (simp add: parse_synonym_equals_def Let_def)
qed

theorem parse_synonym_equals_skips_x_witness:
  "re_split1 equals_pattern example_equals_x_text = [''aaata'', ''x alba L. f.'']
   \<and> py_split (py_strip ''x alba L. f.'') = [''x'', ''alba'', ''L.'', ''f.'']
   \<and> py_lower (py_strip ''x'') = ''x''
   \<and> accepted_name_and_author_words (py_split (py_strip ''x alba L. f.''))
       = (Some ''alba'', [''L.'', ''f.''])
   \<and> (\<exists>e. parse_synonym_equals example_equals_x_text [] ''alba'' [] [] = (Some e, [])
          \<and> entry_type e = SYNONYM_EQUALS \<and> species_name e = ''alba''
          \<and> e_author e = Some ''L. f.'')"
proof -
  have a: "re_split1 equals_pattern example_equals_x_text = [''aaata'', ''x alba L. f.'']"
    by code_simp
  have b: "py_split (py_strip ''x alba L. f.'') = [''x'', ''alba'', ''L.'', ''f.'']"
    by code_simp
  have c: "py_lower (py_strip ''x'') = ''x''"
    by code_simp
  have d: "py_lower ''alba'' = ''alba''"
    by code_simp
  from parse_synonym_equals_skips_x[OF a b c, of "[]" "''alba''" "[]" "[]"] a b c d
  show ?thesis by simp
qed

section \<open>Properties of aggregation\<close>

lemma entry_type_cases:
  "entry_type e \<in> {ACCEPTED_SPECIES, ACCEPTED_HYBRID}
   \<or> entry_type e \<in> {SYNONYM_EQUALS, SYNONYM_SEE, OTHER_LINK}"
  by (cases "entry_type e") simp_all

lemma aggregate_entry_accepted:
  assumes "entry_type e \<in> {ACCEPTED_SPECIES, ACCEPTED_HYBRID}"
      and "map_of (accepted_species st) (species_name e) = Some r"
  shows "aggregate_entry st e =
           st\<lparr>accepted_species :=
                AList.update (species_name e)
                  (r\<lparr>r_author := (if truthy (e_author e) \<and> \<not> truthy (r_author r)
                                   then e_author e else r_author r),
                     r_is_hybrid := (r_is_hybrid r \<or> e_is_hybrid e)\<rparr>)
                  (accepted_species st)\<rparr>"
proof -
  have "(let r1 = (if truthy (e_author e) \<and> \<not> truthy (r_author r)
                   then r\<lparr>r_author := e_author e\<rparr> else r)
         in if e_is_hybrid e then r1\<lparr>r_is_hybrid := True\<rparr> else r1)
        = r\<lparr>r_author := (if truthy (e_author e) \<and> \<not> truthy (r_author r)
                          then e_author e else r_author r),
            r_is_hybrid := (r_is_hybrid r \<or> e_is_hybrid e)\<rparr>"
    by (cases r) (simp add: Let_def)
  with assms show ?thesis
    by (simp add: aggregate_entry_def Let_def)
qed

lemma aggregate_entry_keeps:
  assumes "map_of (accepted_species st) n = Some r"
  shows "\<exists>r'. map_of (accepted_species (aggregate_entry st e)) n = Some r'
            \<and> r_name r' = r_name r \<and> r_url r' = r_url r \<and> r_synonyms r' = r_synonyms r
            \<and> (truthy (r_author r) \<longrightarrow> r_author r' = r_author r)
            \<and> (r_is_hybrid r \<longrightarrow> r_is_hybrid r')"
proof (cases "entry_type e \<in> {ACCEPTED_SPECIES, ACCEPTED_HYBRID}")
  case True
  show ?thesis
  proof (cases "map_of (accepted_species st) (species_name e)")
    case None
    with True assms show ?thesis
      by (auto simp: aggregate_entry_def Let_def update_conv')
  next
    case (Some q)
    show ?thesis
      unfolding aggregate_entry_accepted[OF True Some]
      using assms Some by (auto simp: update_conv')
  qed
next
  case False
  with assms show ?thesis
    by (auto simp: aggregate_entry_def Let_def update_conv' split: option.splits)
qed

lemma aggregate_entries_keeps:
  assumes "map_of (accepted_species st) n = Some r"
  shows "\<exists>r'. map_of (accepted_species (aggregate_entries st es)) n = Some r'
            \<and> r_name r' = r_name r \<and> r_url r' = r_url r \<and> r_synonyms r' = r_synonyms r
            \<and> (truthy (r_author r) \<longrightarrow> r_author r' = r_author r)
            \<and> (r_is_hybrid r \<longrightarrow> r_is_hybrid r')"
  using assms
proof (induction es arbitrary: st r)
  case Nil
  then show ?case by (simp add: aggregate_entries_def)
next
  case (Cons e es)
  from aggregate_entry_keeps[OF Cons.prems, of e] obtain r1 where
    r1: "map_of (accepted_species (aggregate_entry st e)) n = Some r1"
        "r_name r1 = r_name r" "r_url r1 = r_url r" "r_synonyms r1 = r_synonyms r"
        "truthy (r_author r) \<longrightarrow> r_author r1 = r_author r"
        "r_is_hybrid r \<longrightarrow> r_is_hybrid r1" by blast
  from Cons.IH[OF r1(1)] obtain r' where
    r': "map_of (accepted_species (aggregate_entries (aggregate_entry st e) es)) n = Some r'"
        "r_name r' = r_name r1" "r_url r' = r_url r1" "r_synonyms r' = r_synonyms r1"
        "truthy (r_author r1) \<longrightarrow> r_author r' = r_author r1"
        "r_is_hybrid r1 \<longrightarrow> r_is_hybrid r'" by blast
  have "aggregate_entries st (e # es) = aggregate_entries (aggregate_entry st e) es"
    by (simp add: aggregate_entries_def)
  with r1 r' show ?case by auto
qed

text \<open>
  C5. When an accepted-species or accepted-hybrid entry meets a record of its name, at any
  state of the fold, the record's author becomes the entry's author only if the record has
  none and the entry has one, and otherwise stays; the hybrid flag becomes the disjunction
  of the two flags; nothing else of the record and no other record changes. Whatever
  entries follow, an author once present is still the record's author and a hybrid flag
  once set is still set.
\<close>

theorem aggregate_entry_existing_record:
  assumes "entry_type e \<in> {ACCEPTED_SPECIES, ACCEPTED_HYBRID}"
      and "map_of (accepted_species st) (species_name e) = Some r"
  shows "map_of (accepted_species (aggregate_entry st e)) =
           (map_of (accepted_species st))(species_name e \<mapsto>
              r\<lparr>r_author := (if truthy (e_author e) \<and> \<not> truthy (r_author r)
                               then e_author e else r_author r),
                 r_is_hybrid := (r_is_hybrid r \<or> e_is_hybrid e)\<rparr>)
       \<and> map fst (accepted_species (aggregate_entry st e)) = map fst (accepted_species st)
       \<and> synonym_map (aggregate_entry st e) = synonym_map st
       \<and> (\<exists>r'. map_of (accepted_species (aggregate_entries (aggregate_entry st e) later))
                   (species_name e) = Some r'
              \<and> (truthy (r_author r) \<longrightarrow> r_author r' = r_author r)
              \<and> (\<not> truthy (r_author r) \<and> truthy (e_author e) \<longrightarrow> r_author r' = e_author e)
              \<and> (r_is_hybrid r \<or> e_is_hybrid e \<longrightarrow> r_is_hybrid r'))"
proof -
  let ?r1 = "r\<lparr>r_author := (if truthy (e_author e) \<and> \<not> truthy (r_author r)
                               then e_author e else r_author r),
                 r_is_hybrid := (r_is_hybrid r \<or> e_is_hybrid e)\<rparr>"
  have step: "aggregate_entry st e =
      st\<lparr>accepted_species := AList.update (species_name e) ?r1 (accepted_species st)\<rparr>"
    by (rule aggregate_entry_accepted[OF assms])
  have key: "species_name e \<in> set (map fst (accepted_species st))"
    using assms(2) by (metis map_of_eq_None_iff option.distinct(1) set_map)
  have m: "map_of (accepted_species (aggregate_entry st e)) =
           (map_of (accepted_species st))(species_name e \<mapsto> ?r1)"
    by (simp add: step update_conv')
  have k: "map fst (accepted_species (aggregate_entry st e)) = map fst (accepted_species st)"
    using key by (simp add: step update_keys)
  have s: "synonym_map (aggregate_entry st e) = synonym_map st"
    by (simp add: step)
  have "map_of (accepted_species (aggregate_entry st e)) (species_name e) = Some ?r1"
    by (simp add: m)
  from aggregate_entries_keeps[OF this, of later] obtain r' where
    r': "map_of (accepted_species (aggregate_entries (aggregate_entry st e) later))
           (species_name e) = Some r'"
        "truthy (r_author ?r1) \<longrightarrow> r_author r' = r_author ?r1"
        "r_is_hybrid ?r1 \<longrightarrow> r_is_hybrid r'" by blast
  then have "(truthy (r_author r) \<longrightarrow> r_author r' = r_author r)
      \<and> (\<not> truthy (r_author r) \<and> truthy (e_author e) \<longrightarrow> r_author r' = e_author e)
      \<and> (r_is_hybrid r \<or> e_is_hybrid e \<longrightarrow> r_is_hybrid r')"
    by auto
  with m k s r'(1) show ?thesis by blast
qed

theorem aggregate_entry_existing_record_witness:
  "entry_type example_alba_hybrid_entry \<in> {ACCEPTED_SPECIES, ACCEPTED_HYBRID}
   \<and> map_of (accepted_species (aggregate_entry empty_aggregate example_alba_entry))
        (species_name example_alba_hybrid_entry) = Some (new_record example_alba_entry)
   \<and> (\<exists>r'. map_of (accepted_species
                 (aggregate_entries
                    (aggregate_entry (aggregate_entry empty_aggregate example_alba_entry)
                       example_alba_hybrid_entry)
                    [example_alba_bare_entry])) ''alba'' = Some r'
          \<and> r_author r' = Some ''L.'' \<and> r_is_hybrid r')"
proof -
  have h1: "entry_type example_alba_hybrid_entry \<in> {ACCEPTED_SPECIES, ACCEPTED_HYBRID}"
    by (simp add: example_alba_hybrid_entry_def)
  have h2: "map_of (accepted_species (aggregate_entry empty_aggregate example_alba_entry))
        (species_name example_alba_hybrid_entry) = Some (new_record example_alba_entry)"
    by (simp add: aggregate_entry_def empty_aggregate_def example_alba_entry_def
        example_alba_hybrid_entry_def)
  from aggregate_entry_existing_record[OF h1 h2, of "[example_alba_bare_entry]"] h1 h2
  show ?thesis
    by (simp add: new_record_def example_alba_entry_def example_alba_hybrid_entry_def truthy_def)
qed

subsection \<open>Folding the same entries again\<close>

lemma aggregate_entry_settles: "settled (accepted_species (aggregate_entry st e)) e"
proof (cases "entry_type e \<in> {ACCEPTED_SPECIES, ACCEPTED_HYBRID}")
  case True
  show ?thesis
  proof (cases "map_of (accepted_species st) (species_name e)")
    case None
    with True show ?thesis
      by (simp add: settled_def aggregate_entry_def Let_def update_conv' new_record_def)
  next
    case (Some r)
    show ?thesis
      unfolding aggregate_entry_accepted[OF True Some]
      by (simp add: settled_def update_conv')
  qed
next
  case False
  with entry_type_cases[of e] show ?thesis
    by (auto simp: settled_def aggregate_entry_def Let_def update_conv' split: option.splits)
qed

lemma settled_step:
  assumes "settled (accepted_species st) e"
  shows "settled (accepted_species (aggregate_entry st e')) e"
proof -
  from assms obtain r where r: "map_of (accepted_species st) (species_name e) = Some r"
    by (auto simp: settled_def split: option.splits)
  from aggregate_entry_keeps[OF r, of e'] obtain r' where
    r': "map_of (accepted_species (aggregate_entry st e')) (species_name e) = Some r'"
        "truthy (r_author r) \<longrightarrow> r_author r' = r_author r"
        "r_is_hybrid r \<longrightarrow> r_is_hybrid r'" by blast
  with assms r show ?thesis by (auto simp: settled_def)
qed

lemma settled_fold:
  "settled (accepted_species st) e \<Longrightarrow> settled (accepted_species (aggregate_entries st es)) e"
proof (induction es arbitrary: st)
  case Nil
  then show ?case by (simp add: aggregate_entries_def)
next
  case (Cons a es)
  from Cons.IH[OF settled_step[OF Cons.prems, of a]] show ?case
    by (simp add: aggregate_entries_def)
qed

lemma aggregate_entries_settle:
  "e \<in> set es \<Longrightarrow> settled (accepted_species (aggregate_entries st es)) e"
proof (induction es arbitrary: st)
  case Nil
  then show ?case by simp
next
  case (Cons a es)
  have unf: "aggregate_entries st (a # es) = aggregate_entries (aggregate_entry st a) es"
    by (simp add: aggregate_entries_def)
  show ?case
  proof (cases "e = a")
    case True
    then show ?thesis
      unfolding unf using settled_fold[OF aggregate_entry_settles[of st a], of es] by simp
  next
    case False
    with Cons.prems have "e \<in> set es" by simp
    from Cons.IH[OF this] show ?thesis unfolding unf .
  qed
qed

lemma settled_fixed:
  assumes "settled (accepted_species st) e"
  shows "accepted_species (aggregate_entry st e) = accepted_species st"
proof -
  from assms obtain r where r: "map_of (accepted_species st) (species_name e) = Some r"
    by (auto simp: settled_def split: option.splits)
  show ?thesis
  proof (cases "entry_type e \<in> {ACCEPTED_SPECIES, ACCEPTED_HYBRID}")
    case True
    with assms r have a: "truthy (e_author e) \<longrightarrow> truthy (r_author r)"
      and h: "e_is_hybrid e \<longrightarrow> r_is_hybrid r" by (auto simp: settled_def)
    have "r\<lparr>r_author := (if truthy (e_author e) \<and> \<not> truthy (r_author r)
                               then e_author e else r_author r),
            r_is_hybrid := (r_is_hybrid r \<or> e_is_hybrid e)\<rparr> = r"
      using a h by (cases r) auto
    then show ?thesis
      unfolding aggregate_entry_accepted[OF True r] using r by (simp add: update_triv)
  next
    case False
    with r show ?thesis by (simp add: aggregate_entry_def Let_def)
  qed
qed

lemma settled_fold_fixed:
  "\<forall>e\<in>set es. settled (accepted_species st) e \<Longrightarrow>
     accepted_species (aggregate_entries st es) = accepted_species st"
proof (induction es arbitrary: st)
  case Nil
  then show ?case by (simp add: aggregate_entries_def)
next
  case (Cons a es)
  have unf: "aggregate_entries st (a # es) = aggregate_entries (aggregate_entry st a) es"
    by (simp add: aggregate_entries_def)
  from Cons.prems have fa: "accepted_species (aggregate_entry st a) = accepted_species st"
    by (simp add: settled_fixed)
  with Cons.prems have "\<forall>e\<in>set es. settled (accepted_species (aggregate_entry st a)) e"
    by simp
  from Cons.IH[OF this] fa show ?case unfolding unf by simp
qed

lemma accepted_species_refold:
  "accepted_species (aggregate_entries (aggregate_entries st es) es)
     = accepted_species (aggregate_entries st es)"
  by (rule settled_fold_fixed) (simp add: aggregate_entries_settle)

subsection \<open>What a fold adds to the synonym map\<close>

lemma add_synonym_mapping_lookup:
  "syn_lookup (add_synonym_mapping species sm syn) k =
     syn_lookup sm k @ (if truthy (s_name syn) \<and> s_name syn = Some k
                        then [\<lparr>m_accepted_name = species, m_synonym_author = s_author syn\<rparr>]
                        else [])"
proof (cases "s_name syn")
  case None
  then show ?thesis by (simp add: add_synonym_mapping_def truthy_def)
next
  case (Some syn_name)
  show ?thesis
  proof (cases "syn_name = []")
    case True
    with Some show ?thesis by (simp add: add_synonym_mapping_def truthy_def)
  next
    case False
    have inm: "syn_name \<in> fst ` set sm \<longleftrightarrow> map_of sm syn_name \<noteq> None"
      by (simp add: map_of_eq_None_iff)
    show ?thesis
      using Some False inm
      by (auto simp: add_synonym_mapping_def truthy_def Let_def syn_lookup_def update_conv'
          split: option.splits)
  qed
qed

lemma foldl_add_synonym_mapping_lookup:
  "syn_lookup (foldl (add_synonym_mapping species) sm syns) k =
     syn_lookup sm k
     @ concat (map (\<lambda>syn. if truthy (s_name syn) \<and> s_name syn = Some k
                            then [\<lparr>m_accepted_name = species, m_synonym_author = s_author syn\<rparr>]
                            else []) syns)"
  by (induction syns arbitrary: sm) (simp_all add: add_synonym_mapping_lookup)

lemma aggregate_entry_lookup:
  "syn_lookup (synonym_map (aggregate_entry st e)) k
     = syn_lookup (synonym_map st) k @ entry_mappings e k"
proof (cases "entry_type e \<in> {ACCEPTED_SPECIES, ACCEPTED_HYBRID}")
  case True
  then have "entry_mappings e k = []" by (auto simp: entry_mappings_def)
  moreover from True have "synonym_map (aggregate_entry st e) = synonym_map st"
    by (auto simp: aggregate_entry_def Let_def split: option.splits)
  ultimately show ?thesis by simp
next
  case False
  with entry_type_cases[of e] have t: "entry_type e \<in> {SYNONYM_EQUALS, SYNONYM_SEE, OTHER_LINK}"
    by blast
  with False have "synonym_map (aggregate_entry st e)
      = foldl (add_synonym_mapping (species_name e)) (synonym_map st) (e_synonyms e)"
    by (simp add: aggregate_entry_def Let_def)
  with t show ?thesis
    by (simp add: foldl_add_synonym_mapping_lookup entry_mappings_def)
qed

lemma aggregate_entries_lookup:
  "syn_lookup (synonym_map (aggregate_entries st es)) k
     = syn_lookup (synonym_map st) k @ concat (map (\<lambda>e. entry_mappings e k) es)"
proof (induction es arbitrary: st)
  case Nil
  then show ?case by (simp add: aggregate_entries_def)
next
  case (Cons a es)
  have unf: "aggregate_entries st (a # es) = aggregate_entries (aggregate_entry st a) es"
    by (simp add: aggregate_entries_def)
  show ?case unfolding unf Cons.IH by (simp add: aggregate_entry_lookup)
qed

subsection \<open>What the final loops attach\<close>

lemma attach_synonym_map_of:
  "map_of (attach_synonym k acc m) n =
     map_option (\<lambda>r. r\<lparr>r_synonyms := r_synonyms r
                          @ (if m_accepted_name m = n
                             then [\<lparr>s_name = Some k, s_author = m_synonym_author m\<rparr>]
                             else [])\<rparr>) (map_of acc n)"
  by (cases "map_of acc n")
     (auto simp: attach_synonym_def update_conv' split: option.splits)

lemma foldl_attach_synonym_map_of:
  "map_of (foldl (attach_synonym k) acc ms) n =
     map_option (\<lambda>r. r\<lparr>r_synonyms := r_synonyms r
                          @ concat (map (\<lambda>m. if m_accepted_name m = n
                                              then [\<lparr>s_name = Some k,
                                                     s_author = m_synonym_author m\<rparr>]
                                              else []) ms)\<rparr>) (map_of acc n)"
proof (induction ms arbitrary: acc)
  case Nil
  then show ?case by (cases "map_of acc n") simp_all
next
  case (Cons m ms)
  show ?case
    by (cases "map_of acc n") (simp_all add: Cons.IH attach_synonym_map_of)
qed

lemma build_synonym_lists_map_of:
  "map_of (build_synonym_lists acc sm) n =
     map_option (\<lambda>r. r\<lparr>r_synonyms := r_synonyms r @ attached n sm\<rparr>) (map_of acc n)"
  unfolding build_synonym_lists_def
proof (induction sm arbitrary: acc)
  case Nil
  then show ?case by (cases "map_of acc n") (simp_all add: attached_def)
next
  case (Cons p sm)
  obtain k ms where p: "p = (k, ms)" by (cases p)
  show ?case
    by (cases "map_of acc n")
       (simp_all add: p Cons.IH foldl_attach_synonym_map_of attached_def)
qed

text \<open>
  C6, as stated, fails: folding the one-entry sequence \<open>aaata = corrugata\<close> a second time
  changes the synonym map (the mapping is recorded twice), and the synonym sub-entries the
  final step then attaches are not distinct by name.
\<close>

theorem aggregate_refold_counterexample:
  "synonym_map (aggregate_entries (aggregate_entries empty_aggregate [example_corrugata_entry])
                  [example_corrugata_entry])
     \<noteq> synonym_map (aggregate_entries empty_aggregate [example_corrugata_entry])
   \<and> \<not> distinct (map s_name (concat (map r_synonyms
          (fst (finish (aggregate_entries
                          (aggregate_entries empty_aggregate [example_corrugata_entry])
                          [example_corrugata_entry]))))))"
  by code_simp

text \<open>
  C6, amended. Folding the same entry sequence a second time leaves the dictionary of
  accepted records exactly as the first fold left it (no record is added, no author is
  overwritten, no flag changes); the synonym map is not left as it was: for every synonym
  name the second fold appends the mappings of the sequence once more; and the final
  loops attach to each record one sub-entry for every mapping that names it, duplicates
  included.
\<close>

theorem aggregate_refold:
  "accepted_species (aggregate_entries (aggregate_entries st es) es)
     = accepted_species (aggregate_entries st es)
   \<and> syn_lookup (synonym_map (aggregate_entries (aggregate_entries st es) es)) k
     = syn_lookup (synonym_map (aggregate_entries st es)) k
       @ concat (map (\<lambda>e. entry_mappings e k) es)
   \<and> map_of (build_synonym_lists acc sm) n
     = map_option (\<lambda>r. r\<lparr>r_synonyms := r_synonyms r @ attached n sm\<rparr>) (map_of acc n)"
  by (simp add: accepted_species_refold aggregate_entries_lookup build_synonym_lists_map_of)

end
